theory Spec2Isabelle
  imports Complex_Main "HOL-Library.Monad_Syntax"
begin

section \<open>NbodyIMRI: the force model and the leapfrog integrator\<close>

text \<open>
  A shallow embedding of \<^verbatim>\<open>NbodyIMRI/particles.py\<close> (class \<^verbatim>\<open>particles\<close>) and
  \<^verbatim>\<open>NbodyIMRI/simulator.py\<close> (class \<^verbatim>\<open>simulator\<close>).

  Conventions of the embedding.
  \<^item> A Python or numpy float is a real number: rounding and overflow are not modelled.
  \<^item> The reals have no \<^verbatim>\<open>inf\<close> and no \<^verbatim>\<open>nan\<close>. numpy arithmetic never raises on a
    division by zero; it yields a non-finite value and goes on. Inside a force evaluation a
    numpy value is therefore an \<open>option\<close>: \<open>None\<close> stands for a value that is
    \<^verbatim>\<open>inf\<close> or \<^verbatim>\<open>nan\<close> (for a row of an \<open>N\<times>3\<close> array: a row with such a component).
    Comparisons with a non-finite square root are false, as in IEEE arithmetic. A force
    evaluation that would store a non-finite value ends with the outcome \<open>NonFinite\<close>,
    after every exception the source raises; the stored state is always finite.
  \<^item> Masses, \<^verbatim>\<open>dt\<close>, \<^verbatim>\<open>eta\<close> and the softening lengths are Python floats, so dividing by
    a zero one raises \<^verbatim>\<open>ZeroDivisionError\<close>.
  \<^item> The constant \<^verbatim>\<open>units.G_N\<close> lives in a module that is not part of the sources; it is
    the parameter \<open>G\<close> of every function that uses it.
  \<^item> An exception is a value of type \<open>error\<close>; a method that can raise returns
    \<open>error + 'a\<close>. Mutation of \<^verbatim>\<open>self\<close> is explicit state passing.
  \<^item> The arrays of a particle set share the leading dimension \<^verbatim>\<open>N_DM\<close>, as
    \<^verbatim>\<open>particles.__init__\<close> builds them; element-wise array operations are \<open>map\<close> and
    \<open>map2\<close> over lists of rows.
  \<^item> Where aliasing matters (the deep copy made by \<^verbatim>\<open>simulator.__init__\<close>), objects and
    arrays are cells of an explicit store, and the methods act on the cells that \<^verbatim>\<open>self.p\<close>
    points to.
  \<^item> Modelled: \<^verbatim>\<open>particles.__init__\<close>, \<^verbatim>\<open>xstep\<close>, \<^verbatim>\<open>vstep\<close>; \<^verbatim>\<open>simulator.__init__\<close>,
    \<^verbatim>\<open>calc_dt_opt\<close>, \<^verbatim>\<open>adaptive_step\<close>, \<^verbatim>\<open>full_step\<close>, \<^verbatim>\<open>calc_acc\<close>,
    \<^verbatim>\<open>update_acceleration\<close>. The driver \<^verbatim>\<open>run_simulation\<close> (output files, progress bar, the
    hook \<^verbatim>\<open>check_state\<close>) acts on the particle set only through \<^verbatim>\<open>full_step\<close> and
    \<^verbatim>\<open>adaptive_step\<close>; it is not modelled, and neither are the samplers of initial
    conditions and the plots.
\<close>

subsection \<open>Vectors and arrays\<close>

type_synonym vec3 = "real \<times> real \<times> real"

definition vadd :: "vec3 \<Rightarrow> vec3 \<Rightarrow> vec3" where
  "vadd a b = (case a of (a1, a2, a3) \<Rightarrow> case b of (b1, b2, b3) \<Rightarrow> (a1 + b1, a2 + b2, a3 + b3))"

definition vsub :: "vec3 \<Rightarrow> vec3 \<Rightarrow> vec3" where
  "vsub a b = (case a of (a1, a2, a3) \<Rightarrow> case b of (b1, b2, b3) \<Rightarrow> (a1 - b1, a2 - b2, a3 - b3))"

definition smul :: "real \<Rightarrow> vec3 \<Rightarrow> vec3" where
  "smul c a = (case a of (a1, a2, a3) \<Rightarrow> (c * a1, c * a2, c * a3))"

definition vzero :: vec3 where
  "vzero = (0, 0, 0)"

definition norm_sq :: "vec3 \<Rightarrow> real" where
  \<comment> \<open>\<^verbatim>\<open>np.sum(dx**2, axis=-1)\<close> for one row\<close>
  "norm_sq a = (case a of (a1, a2, a3) \<Rightarrow> a1 * a1 + a2 * a2 + a3 * a3)"

definition vsum :: "vec3 list \<Rightarrow> vec3" where
  \<comment> \<open>\<^verbatim>\<open>np.sum(rows, axis=0)\<close>\<close>
  "vsum rows = foldr vadd rows vzero"

definition weighted_sum :: "real list \<Rightarrow> vec3 list \<Rightarrow> vec3" where
  \<comment> \<open>\<^verbatim>\<open>np.sum(np.atleast_2d(M_DM).T*acc, axis=0)\<close>\<close>
  "weighted_sum ms rows = vsum (map2 smul ms rows)"

subsection \<open>Exceptions and attributes\<close>

datatype error =
    TypeError
  | ValueError string
  | ZeroDivisionError
  | OverflowError
  | AttributeError
  | NonFinite

text \<open>
  An attribute of a Python object is absent (reading it raises \<^verbatim>\<open>AttributeError\<close>), bound
  to \<^verbatim>\<open>None\<close>, or bound to a value.
\<close>

datatype 'a attr = Unset | PyNone | Val 'a

definition bindE :: "error + 'a \<Rightarrow> ('a \<Rightarrow> error + 'b) \<Rightarrow> error + 'b" where
  "bindE m f = (case m of Inl e \<Rightarrow> Inl e | Inr x \<Rightarrow> f x)"

primrec seqE :: "('s \<Rightarrow> error + 's) list \<Rightarrow> 's \<Rightarrow> error + 's" where
  \<comment> \<open>a block of statements acting on \<^verbatim>\<open>self\<close>, run in order until one raises\<close>
  "seqE [] s = Inr s"
| "seqE (f # fs) s = bindE (f s) (seqE fs)"

subsection \<open>numpy scalars that may be non-finite\<close>

definition np_div :: "real \<Rightarrow> real \<Rightarrow> real option" where
  \<comment> \<open>\<^verbatim>\<open>a/b\<close> on numpy floats: \<^verbatim>\<open>inf\<close> or \<^verbatim>\<open>nan\<close> when \<^verbatim>\<open>b\<close> is zero\<close>
  "np_div a b = (if b = 0 then None else Some (a / b))"

definition np_sqrt :: "real option \<Rightarrow> real option" where
  \<comment> \<open>\<^verbatim>\<open>np.sqrt\<close>: \<^verbatim>\<open>nan\<close> on a negative argument, non-finite on a non-finite one\<close>
  "np_sqrt a = (case a of None \<Rightarrow> None | Some v \<Rightarrow> if v < 0 then None else Some (sqrt v))"

definition np_powr :: "real \<Rightarrow> real \<Rightarrow> real option" where
  \<comment> \<open>\<^verbatim>\<open>b**e\<close> for a negative exponent \<^verbatim>\<open>e\<close>: \<^verbatim>\<open>inf\<close> at \<^verbatim>\<open>b = 0\<close>; \<^verbatim>\<open>nan\<close> at \<^verbatim>\<open>b < 0\<close> when
      \<^verbatim>\<open>e\<close> is fractional\<close>
  "np_powr b e = (if 0 < b then Some (b powr e) else None)"

definition np_mul :: "real option \<Rightarrow> real option \<Rightarrow> real option" where
  "np_mul a b = (case a of None \<Rightarrow> None | Some x \<Rightarrow> map_option (\<lambda>y. x * y) b)"

definition np_smul :: "real option \<Rightarrow> vec3 option \<Rightarrow> vec3 option" where
  \<comment> \<open>a scalar factor times a row; non-finite as soon as one of them is\<close>
  "np_smul c row = (case c of None \<Rightarrow> None | Some x \<Rightarrow> map_option (smul x) row)"

definition np_vdiv :: "vec3 \<Rightarrow> real \<Rightarrow> vec3 option" where
  \<comment> \<open>one row of \<^verbatim>\<open>dx /= r\<close>\<close>
  "np_vdiv a r = (if r = 0 then None else Some (smul (1 / r) a))"

definition np_min :: "real list \<Rightarrow> error + real" where
  \<comment> \<open>\<^verbatim>\<open>np.min\<close>; a zero-size array has no minimum\<close>
  "np_min rs = (case rs of [] \<Rightarrow> Inl (ValueError ''zero-size array to reduction operation minimum which has no identity'')
                | r # rest \<Rightarrow> Inr (fold min rest r))"

definition np_clip :: "real \<Rightarrow> real \<Rightarrow> real \<Rightarrow> real" where
  \<comment> \<open>\<^verbatim>\<open>np.clip(a, a_min, a_max)\<close> is \<^verbatim>\<open>minimum(a_max, maximum(a, a_min))\<close>\<close>
  "np_clip a a_min a_max = min a_max (max a a_min)"

subsection \<open>The softening kernels: \<^verbatim>\<open>simulator.calc_acc\<close>\<close>

text \<open>
  Each kernel is given for one tracer: \<open>dx\<close> is the row of the unit separation vectors and
  \<open>r_sq\<close> the squared separation. \<^verbatim>\<open>calc_acc\<close> applies it to every row.
\<close>

definition plummer_row :: "real \<Rightarrow> real \<Rightarrow> real \<Rightarrow> vec3 option \<Rightarrow> real \<Rightarrow> vec3 option" where
  \<comment> \<open>\<^verbatim>\<open>-u.G_N*M_eff*dx*(r_sq + r_soft_sq)**-1\<close>\<close>
  "plummer_row G M_eff r_soft_sq dx r_sq = np_smul (np_div (- G * M_eff) (r_sq + r_soft_sq)) dx"

definition plummer2_row :: "real \<Rightarrow> real \<Rightarrow> real \<Rightarrow> vec3 option \<Rightarrow> real \<Rightarrow> vec3 option" where
  \<comment> \<open>\<^verbatim>\<open>-u.G_N*M_eff*np.sqrt(r_sq)*(dx/2)*(2*r_sq + 5*r_soft_sq)*(r_sq + r_soft_sq)**(-5/2)\<close>\<close>
  "plummer2_row G M_eff r_soft_sq dx r_sq =
     np_smul (np_mul (np_mul (Some (- G * M_eff)) (np_sqrt (Some r_sq)))
                (np_mul (Some ((1 / 2) * (2 * r_sq + 5 * r_soft_sq)))
                        (np_powr (r_sq + r_soft_sq) (- 5 / 2)))) dx"

definition newton_row :: "real \<Rightarrow> real \<Rightarrow> vec3 option \<Rightarrow> real \<Rightarrow> vec3 option" where
  \<comment> \<open>\<^verbatim>\<open>-u.G_N*M_eff*dx*(r_sq)**-1\<close>, the value of every row before a mask overwrites some\<close>
  "newton_row G M_eff dx r_sq = np_smul (np_div (- G * M_eff) r_sq) dx"

definition soft_x :: "real \<Rightarrow> real \<Rightarrow> real option" where
  \<comment> \<open>\<^verbatim>\<open>x = np.sqrt(r_sq/r_soft_sq)\<close>\<close>
  "soft_x r_sq r_soft_sq = np_sqrt (np_div r_sq r_soft_sq)"

definition uniform_old_row :: "real \<Rightarrow> real \<Rightarrow> real \<Rightarrow> vec3 option \<Rightarrow> real \<Rightarrow> vec3 option" where
  \<comment> \<open>mask \<^verbatim>\<open>x < 1\<close>; inside
      \<^verbatim>\<open>-u.G_N*M_eff*dx[inds,:]*x[inds]*(8 - 9*x[inds] + 2*(x[inds])**3)/(r_soft_sq)\<close>\<close>
  "uniform_old_row G M_eff r_soft_sq dx r_sq =
     (case soft_x r_sq r_soft_sq of
        None \<Rightarrow> newton_row G M_eff dx r_sq
      | Some x \<Rightarrow>
          if x < 1
          then np_smul (np_div (- G * M_eff * x * (8 - 9 * x + 2 * x ^ 3)) r_soft_sq) dx
          else newton_row G M_eff dx r_sq)"

definition uniform_inside :: "real \<Rightarrow> real \<Rightarrow> real \<Rightarrow> vec3 option \<Rightarrow> real \<Rightarrow> vec3 option" where
  \<comment> \<open>\<^verbatim>\<open>-u.G_N*M_eff*dx[inds,:]*x[inds]/(r_soft_sq)\<close>\<close>
  "uniform_inside G M_eff r_soft_sq dx x = np_smul (np_div (- G * M_eff * x) r_soft_sq) dx"

definition uniform_row :: "real \<Rightarrow> real \<Rightarrow> real \<Rightarrow> vec3 option \<Rightarrow> real \<Rightarrow> vec3 option" where
  \<comment> \<open>mask \<^verbatim>\<open>x <= 1\<close>\<close>
  "uniform_row G M_eff r_soft_sq dx r_sq =
     (case soft_x r_sq r_soft_sq of
        None \<Rightarrow> newton_row G M_eff dx r_sq
      | Some x \<Rightarrow>
          if x \<le> 1
          then uniform_inside G M_eff r_soft_sq dx x
          else newton_row G M_eff dx r_sq)"

definition truncate_row :: "real \<Rightarrow> real \<Rightarrow> real \<Rightarrow> vec3 option \<Rightarrow> real \<Rightarrow> vec3 option" where
  \<comment> \<open>\<^verbatim>\<open>r_sq = np.clip(r_sq, r_soft_sq, 1e50)\<close>, then \<^verbatim>\<open>-u.G_N*M_eff*dx/r_sq\<close>\<close>
  "truncate_row G M_eff r_soft_sq dx r_sq =
     np_smul (np_div (- G * M_eff) (np_clip r_sq r_soft_sq (10 ^ 50))) dx"

definition empty_shell_row :: "real \<Rightarrow> real \<Rightarrow> real \<Rightarrow> vec3 option \<Rightarrow> real \<Rightarrow> vec3 option" where
  \<comment> \<open>mask \<^verbatim>\<open>x < 1\<close>; inside \<^verbatim>\<open>acc_DM[inds] *= 0.0\<close>\<close>
  "empty_shell_row G M_eff r_soft_sq dx r_sq =
     (case soft_x r_sq r_soft_sq of
        None \<Rightarrow> newton_row G M_eff dx r_sq
      | Some x \<Rightarrow>
          if x < 1
          then map_option (smul 0) (newton_row G M_eff dx r_sq)
          else newton_row G M_eff dx r_sq)"

definition calc_acc ::
  "real \<Rightarrow> real \<Rightarrow> vec3 option list \<Rightarrow> real list \<Rightarrow> real \<Rightarrow> string \<Rightarrow> error + vec3 option list" where
  "calc_acc G M_eff dx r_sq r_soft_sq method =
     (if method = ''plummer'' then Inr (map2 (plummer_row G M_eff r_soft_sq) dx r_sq)
      else if method = ''plummer2'' then Inr (map2 (plummer2_row G M_eff r_soft_sq) dx r_sq)
      else if method = ''uniform_old'' then Inr (map2 (uniform_old_row G M_eff r_soft_sq) dx r_sq)
      else if method = ''uniform'' then Inr (map2 (uniform_row G M_eff r_soft_sq) dx r_sq)
      else if method = ''truncate'' then Inr (map2 (truncate_row G M_eff r_soft_sq) dx r_sq)
      else if method = ''empty_shell'' then Inr (map2 (empty_shell_row G M_eff r_soft_sq) dx r_sq)
      else Inl (ValueError (''Invalid softening method:'' @ method)))"

subsection \<open>The particle set: class \<^verbatim>\<open>particles\<close>\<close>

record particles =
  M_1 :: real
  M_2 :: real
  M_DM :: "real list"
  N_DM :: nat
  xBH1 :: vec3
  vBH1 :: vec3
  xBH2 :: vec3
  vBH2 :: vec3
  xDM :: "vec3 list"
  vDM :: "vec3 list"
  dvdtBH1 :: "vec3 attr"
  dvdtBH2 :: "vec3 attr"
  dvdtDM :: "vec3 list attr"
  dynamic_BH :: bool

definition particles_init :: "real \<Rightarrow> real \<Rightarrow> nat \<Rightarrow> real \<Rightarrow> bool \<Rightarrow> particles" where
  \<comment> \<open>\<^verbatim>\<open>particles.__init__\<close>; the attribute \<^verbatim>\<open>dvdtDM\<close> is not created there\<close>
  "particles_init m1 m2 n m_dm dyn =
     \<lparr> M_1 = m1, M_2 = m2, M_DM = replicate n (m_dm * 1), N_DM = n,
       xBH1 = vzero, vBH1 = vzero, xBH2 = vzero, vBH2 = vzero,
       xDM = replicate n vzero, vDM = replicate n vzero,
       dvdtBH1 = PyNone, dvdtBH2 = PyNone, dvdtDM = Unset,
       dynamic_BH = dyn \<rparr>"

definition drift :: "real \<Rightarrow> vec3 \<Rightarrow> vec3 \<Rightarrow> vec3" where
  \<comment> \<open>\<^verbatim>\<open>x += v*h\<close> for one row\<close>
  "drift h x v = vadd x (smul h v)"

definition xstep :: "particles \<Rightarrow> real \<Rightarrow> particles" where
  \<comment> \<open>\<^verbatim>\<open>def xstep(self, h)\<close>\<close>
  "xstep q h =
     q \<lparr> xBH1 := (if dynamic_BH q then drift h (xBH1 q) (vBH1 q) else xBH1 q),
         xBH2 := drift h (xBH2 q) (vBH2 q),
         xDM := map2 (drift h) (xDM q) (vDM q) \<rparr>"

definition read_attr :: "'a attr \<Rightarrow> error + 'a" where
  \<comment> \<open>reading an attribute as an operand of \<^verbatim>\<open>*\<close>: an absent one raises
      \<^verbatim>\<open>AttributeError\<close>, \<^verbatim>\<open>None*h\<close> raises \<^verbatim>\<open>TypeError\<close>\<close>
  "read_attr a = (case a of Unset \<Rightarrow> Inl AttributeError | PyNone \<Rightarrow> Inl TypeError | Val v \<Rightarrow> Inr v)"

definition vstep :: "particles \<Rightarrow> real \<Rightarrow> error + particles" where
  \<comment> \<open>\<^verbatim>\<open>def vstep(self, h)\<close>\<close>
  "vstep q h =
     bindE (if dynamic_BH q
            then bindE (read_attr (dvdtBH1 q)) (\<lambda>a. Inr (q \<lparr> vBH1 := drift h (vBH1 q) a \<rparr>))
            else Inr q) (\<lambda>q1.
     bindE (read_attr (dvdtBH2 q1)) (\<lambda>a2.
     bindE (read_attr (dvdtDM q1)) (\<lambda>a_dm.
       Inr (q1 \<lparr> vBH2 := drift h (vBH2 q1) a2,
                 vDM := map2 (drift h) (vDM q1) a_dm \<rparr>))))"

subsection \<open>The simulator: construction and force evaluation\<close>

record simulator =
  p :: particles
  r_soft_sq2 :: real
  r_soft_sq1 :: real
  soft_method :: string
  soft_method1 :: string
  background_field :: "(vec3 \<Rightarrow> vec3) option"
  acc_DM1 :: "vec3 list attr"
  acc_DM2 :: "vec3 list attr"
  r1_min :: "real attr"
  r2_min :: "real attr"

definition simulator_init :: "particles \<Rightarrow> real \<Rightarrow> real \<Rightarrow> string \<Rightarrow> error + simulator" where
  \<comment> \<open>\<^verbatim>\<open>simulator.__init__(particle_set, r_soft_sq2, r_soft_sq1, soft_method)\<close>. It contains
      no \<^verbatim>\<open>raise\<close>. The deep copy of a value is the value. The attributes \<^verbatim>\<open>acc_DM1\<close>,
      \<^verbatim>\<open>acc_DM2\<close>, \<^verbatim>\<open>r1_min\<close> and \<^verbatim>\<open>r2_min\<close> are not created here.\<close>
  "simulator_init particle_set soft_sq2 soft_sq1 method =
     Inr \<lparr> p = particle_set,
           r_soft_sq2 = soft_sq2,
           r_soft_sq1 = (if soft_sq1 < 0 then 1 * soft_sq2 else soft_sq1),
           soft_method = method,
           soft_method1 = ''uniform'',
           background_field = None,
           acc_DM1 = Unset, acc_DM2 = Unset, r1_min = Unset, r2_min = Unset \<rparr>"

definition eff_masses :: "particles \<Rightarrow> error + real \<times> real" where
  \<comment> \<open>\<^verbatim>\<open>M1_eff\<close> and \<^verbatim>\<open>M2_eff\<close> of \<^verbatim>\<open>update_acceleration\<close>\<close>
  "eff_masses q =
     (if dynamic_BH q then Inr (M_1 q, M_2 q)
      else if M_1 q + M_2 q = 0 then Inl ZeroDivisionError
      else Inr (M_1 q + M_2 q, (M_1 q * M_2 q) / (M_1 q + M_2 q)))"

definition unit_separations :: "vec3 list \<Rightarrow> vec3 \<Rightarrow> vec3 option list \<times> real list \<times> real list" where
  \<comment> \<open>\<^verbatim>\<open>dx = xDM - xBH; r_sq = np.sum(dx**2, axis=-1, keepdims=True); r = np.sqrt(r_sq);
      dx /= r\<close>, giving \<^verbatim>\<open>(dx, r_sq, r)\<close>\<close>
  "unit_separations xs xB =
     (let dx = map (\<lambda>x. vsub x xB) xs;
          r_sq = map norm_sq dx;
          r = map sqrt r_sq
      in (map2 np_vdiv dx r, r_sq, r))"

definition closest :: "nat \<Rightarrow> real list \<Rightarrow> real attr \<Rightarrow> error + real attr" where
  \<comment> \<open>\<^verbatim>\<open>if (self.p.N_DM > 0): self.r_min = np.min(r)\<close>; otherwise the attribute keeps its state\<close>
  "closest n r old = (if 0 < n then bindE (np_min r) (\<lambda>m. Inr (Val m)) else Inr old)"

definition acc_BH_of :: "real \<Rightarrow> real \<Rightarrow> vec3 \<Rightarrow> vec3 \<Rightarrow> vec3 option" where
  \<comment> \<open>\<^verbatim>\<open>dx12 = xBH1 - xBH2; r12_sq = np.sum(dx12**2); -u.G_N*M2_eff*dx12*(r12_sq)**-1.5\<close>\<close>
  "acc_BH_of G M2_eff x1 x2 =
     (let dx12 = vsub x1 x2; r12_sq = norm_sq dx12
      in np_smul (np_mul (Some (- G * M2_eff)) (np_powr r12_sq (- 1.5))) (Some dx12))"

definition body_acc :: "real \<Rightarrow> real \<Rightarrow> real list \<Rightarrow> vec3 \<Rightarrow> vec3 list \<Rightarrow> vec3" where
  \<comment> \<open>\<^verbatim>\<open>c*acc_BH - (1/M_eff)*np.sum(np.atleast_2d(self.p.M_DM).T*acc_DM, axis=0)\<close>\<close>
  "body_acc c M_eff ms acc_BH acc_DM =
     vsub (smul c acc_BH) (smul (1 / M_eff) (weighted_sum ms acc_DM))"

definition add_field :: "(vec3 \<Rightarrow> vec3) option \<Rightarrow> vec3 \<Rightarrow> vec3 \<Rightarrow> vec3" where
  \<comment> \<open>\<^verbatim>\<open>if self.background_field is not None: a += self.background_field(x)\<close>\<close>
  "add_field bf x a = (case bf of None \<Rightarrow> a | Some f \<Rightarrow> vadd a (f x))"

definition store_acceleration ::
  "simulator \<Rightarrow> real \<Rightarrow> real \<Rightarrow> real attr \<Rightarrow> real attr \<Rightarrow> vec3 list \<Rightarrow> vec3 list \<Rightarrow> vec3 \<Rightarrow> simulator" where
  \<comment> \<open>the assignments of \<^verbatim>\<open>update_acceleration\<close>, once every value is known to be finite.
      A scalar \<^verbatim>\<open>0.0\<close> stands for the zero row (it is only ever added to rows).\<close>
  "store_acceleration s M1_eff M2_eff r1m r2m acc1 acc2 acc_BH =
     (let q = p s; bf = background_field s;
          a1 = (if dynamic_BH q then body_acc 1 M1_eff (M_DM q) acc_BH acc1 else vzero);
          a2 = (if 0 < M_2 q then body_acc (- (M1_eff / M2_eff)) M2_eff (M_DM q) acc_BH acc2 else vzero);
          a_dm = map2 vadd acc1 acc2
      in s \<lparr> p := q \<lparr> dvdtBH1 := Val (add_field bf (xBH1 q) a1),
                      dvdtBH2 := Val (add_field bf (xBH2 q) a2),
                      dvdtDM := Val (map2 (add_field bf) (xDM q) a_dm) \<rparr>,
             acc_DM1 := Val acc1, acc_DM2 := Val acc2,
             r1_min := r1m, r2_min := r2m \<rparr>)"

definition secondary_acc ::
  "real \<Rightarrow> simulator \<Rightarrow> real \<Rightarrow> nat \<Rightarrow> error + real attr \<times> vec3 option list \<times> vec3 option" where
  \<comment> \<open>the branch \<^verbatim>\<open>if (self.p.M_2 > 0): ... else: acc_BH = 0.0; self.acc_DM2 = 0.0\<close>, giving
      \<^verbatim>\<open>(r2_min, acc_DM2, acc_BH)\<close>; \<open>n\<close> is the number of rows of \<^verbatim>\<open>acc_DM1\<close>\<close>
  "secondary_acc G s M2_eff n =
     (let q = p s in
      if 0 < M_2 q
      then (case unit_separations (xDM q) (xBH2 q) of (dx2, r2_sq, r2) \<Rightarrow>
              bindE (closest (N_DM q) r2 (r2_min s)) (\<lambda>r2m.
              bindE (calc_acc G M2_eff dx2 r2_sq (r_soft_sq2 s) (soft_method s)) (\<lambda>acc2.
                Inr (r2m, acc2, acc_BH_of G M2_eff (xBH1 q) (xBH2 q)))))
      else Inr (r2_min s, replicate n (Some vzero), Some vzero))"

definition finite_rows :: "vec3 option list \<Rightarrow> error + vec3 list" where
  "finite_rows rows = (case those rows of None \<Rightarrow> Inl NonFinite | Some fs \<Rightarrow> Inr fs)"

definition finite_row :: "vec3 option \<Rightarrow> error + vec3" where
  "finite_row row = (case row of None \<Rightarrow> Inl NonFinite | Some r \<Rightarrow> Inr r)"

definition update_acceleration :: "real \<Rightarrow> simulator \<Rightarrow> error + simulator" where
  "update_acceleration G s =
     (let q = p s in
      bindE (eff_masses q) (\<lambda>(M1_eff, M2_eff).
      case unit_separations (xDM q) (xBH1 q) of (dx1, r1_sq, r1) \<Rightarrow>
      bindE (closest (N_DM q) r1 (r1_min s)) (\<lambda>r1m.
      bindE (calc_acc G M1_eff dx1 r1_sq (r_soft_sq1 s) (soft_method1 s)) (\<lambda>acc1.
      bindE (secondary_acc G s M2_eff (length acc1)) (\<lambda>(r2m, acc2, acc_BH).
      if dynamic_BH q \<and> M1_eff = 0 then Inl ZeroDivisionError
      else if 0 < M_2 q \<and> M2_eff = 0 then Inl ZeroDivisionError
      else
        bindE (finite_rows acc1) (\<lambda>f1.
        bindE (finite_rows acc2) (\<lambda>f2.
        bindE (finite_row acc_BH) (\<lambda>fb.
          Inr (store_acceleration s M1_eff M2_eff r1m r2m f1 f2 fb)))))))))"

subsection \<open>The integrator: \<^verbatim>\<open>simulator.full_step\<close>\<close>

text \<open>
  A call passes positional arguments; Python checks their number against the parameters of
  the method before the body runs. \<^verbatim>\<open>particles.xstep\<close> and \<^verbatim>\<open>particles.vstep\<close> are
  declared \<^verbatim>\<open>(self, h)\<close>: one positional argument besides \<^verbatim>\<open>self\<close>.
\<close>

datatype pyarg = PyFloat real | PyInds "nat list option"

definition call_xstep :: "pyarg list \<Rightarrow> simulator \<Rightarrow> error + simulator" where
  \<comment> \<open>\<^verbatim>\<open>self.p.xstep(*args)\<close>\<close>
  "call_xstep args s =
     (case args of
        [PyFloat h] \<Rightarrow> Inr (s \<lparr> p := xstep (p s) h \<rparr>)
      | _ \<Rightarrow> Inl TypeError)"

definition call_vstep :: "pyarg list \<Rightarrow> simulator \<Rightarrow> error + simulator" where
  \<comment> \<open>\<^verbatim>\<open>self.p.vstep(*args)\<close>\<close>
  "call_vstep args s =
     (case args of
        [PyFloat h] \<Rightarrow> bindE (vstep (p s) h) (\<lambda>q. Inr (s \<lparr> p := q \<rparr>))
      | _ \<Rightarrow> Inl TypeError)"

definition theta :: real where
  \<comment> \<open>\<^verbatim>\<open>theta = 1/(2 - 2**(1/3))\<close>\<close>
  "theta = 1 / (2 - 2 powr (1 / 3))"

definition xi :: real where
  "xi = 0.1786178958448091"

definition lam :: real where
  "lam = - 0.2123418310626054"

definition chi :: real where
  "chi = - 0.06626458266981849"

definition full_step :: "real \<Rightarrow> simulator \<Rightarrow> real \<Rightarrow> string \<Rightarrow> nat list option \<Rightarrow> error + simulator" where
  \<comment> \<open>\<^verbatim>\<open>def full_step(self, dt, method="PEFRL", inds=None)\<close>; the chain of \<^verbatim>\<open>if\<close>/\<^verbatim>\<open>elif\<close> has
      no \<^verbatim>\<open>else\<close>\<close>
  "full_step G s dt method inds =
     (if method = ''DKD'' then
        seqE [call_xstep [PyFloat (0.5 * dt), PyInds inds],
              update_acceleration G,
              call_vstep [PyFloat (1.0 * dt), PyInds inds],
              call_xstep [PyFloat (0.5 * dt), PyInds inds]] s
      else if method = ''KDK'' then
        seqE [update_acceleration G,
              call_vstep [PyFloat (0.5 * dt), PyInds inds],
              call_xstep [PyFloat (1.0 * dt), PyInds inds],
              update_acceleration G,
              call_vstep [PyFloat (0.5 * dt), PyInds inds]] s
      else if method = ''FR'' then
        seqE [call_xstep [PyFloat (theta * dt / 2)],
              update_acceleration G,
              call_vstep [PyFloat (theta * dt)],
              call_xstep [PyFloat ((1 - theta) * dt / 2)],
              update_acceleration G,
              call_vstep [PyFloat ((1 - 2 * theta) * dt)],
              call_xstep [PyFloat ((1 - theta) * dt / 2)],
              update_acceleration G,
              call_vstep [PyFloat (theta * dt)],
              call_xstep [PyFloat (theta * dt / 2)]] s
      else if method = ''PEFRL'' then
        seqE [call_xstep [PyFloat (xi * dt)],
              update_acceleration G,
              call_vstep [PyFloat ((1 - 2 * lam) * dt / 2)],
              call_xstep [PyFloat (chi * dt)],
              update_acceleration G,
              call_vstep [PyFloat (lam * dt)],
              call_xstep [PyFloat ((1 - 2 * (chi + xi)) * dt)],
              update_acceleration G,
              call_vstep [PyFloat (lam * dt)],
              call_xstep [PyFloat (chi * dt)],
              update_acceleration G,
              call_vstep [PyFloat ((1 - 2 * lam) * dt / 2)],
              call_xstep [PyFloat (xi * dt)]] s
      else Inr s)"

subsection \<open>The adaptive step controller: \<^verbatim>\<open>simulator.adaptive_step\<close>\<close>

definition calc_dt_opt :: "real \<Rightarrow> real \<Rightarrow> real \<Rightarrow> real \<Rightarrow> real option" where
  \<comment> \<open>\<^verbatim>\<open>eta*(2*np.pi*np.sqrt(r**3/(u.G_N*M)))\<close>, a numpy float\<close>
  "calc_dt_opt G r M eta = np_mul (Some eta) (np_mul (Some (2 * pi)) (np_sqrt (np_div (r ^ 3) (G * M))))"

function for_range :: "int \<Rightarrow> int \<Rightarrow> ('s \<Rightarrow> error + 's) \<Rightarrow> 's \<Rightarrow> error + 's" where
  \<comment> \<open>\<^verbatim>\<open>for i in range(i, n): body\<close>, left at the first exception\<close>
  "for_range i n body s =
     (if i < n
      then (case body s of Inl e \<Rightarrow> Inl e | Inr s' \<Rightarrow> for_range (i + 1) n body s')
      else Inr s)"
  by pat_completeness auto
termination
  by (relation "measure (\<lambda>(i, n, body, s). nat (n - i))") auto

declare for_range.simps [simp del]

definition adaptive_step :: "real \<Rightarrow> simulator \<Rightarrow> real \<Rightarrow> string \<Rightarrow> real \<Rightarrow> int \<Rightarrow> error + simulator" where
  \<comment> \<open>\<^verbatim>\<open>def adaptive_step(self, dt, method, eta, N_sub_max = 100)\<close>. A \<^verbatim>\<open>dt_opt\<close> that is
      \<^verbatim>\<open>inf\<close> or \<^verbatim>\<open>nan\<close> ends with \<open>NonFinite\<close>. \<^verbatim>\<open>int(np.ceil(dt/dt_opt))\<close> raises
      \<^verbatim>\<open>OverflowError\<close> on \<^verbatim>\<open>inf\<close>, that is when \<^verbatim>\<open>dt_opt\<close> is zero.\<close>
  "adaptive_step G s dt method eta N_sub_max =
     (if N_DM (p s) = 0 then full_step G s dt method None
      else
        bindE (case r2_min s of
                 Unset \<Rightarrow> Inl AttributeError
               | PyNone \<Rightarrow> update_acceleration G s
               | Val r \<Rightarrow> Inr s) (\<lambda>s1.
        bindE (read_attr (r2_min s1)) (\<lambda>r.
          case calc_dt_opt G r (M_2 (p s1)) eta of
            None \<Rightarrow> Inl NonFinite
          | Some dt_opt \<Rightarrow>
              if dt_opt \<ge> dt then full_step G s1 dt method None
              else if dt_opt = 0 then Inl OverflowError
              else
                (let N_sub = \<lceil>dt / dt_opt\<rceil>;
                     N_sub = (if N_sub > N_sub_max then N_sub_max else N_sub)
                 in if N_sub = 0 then Inl ZeroDivisionError
                    else for_range 0 N_sub
                           (\<lambda>s'. full_step G s' (dt / of_int N_sub) method None) s1))))"

subsection \<open>Notions used to state the properties\<close>

definition tracer_acc :: "real \<Rightarrow> real \<Rightarrow> vec3 list \<Rightarrow> vec3 \<Rightarrow> real \<Rightarrow> string \<Rightarrow> error + vec3 option list" where
  \<comment> \<open>the accelerations of the tracers at \<open>xs\<close> from a body of effective mass \<open>M_eff\<close> at
      \<open>xB\<close>: \<^verbatim>\<open>calc_acc\<close> on the unit separations, as \<^verbatim>\<open>update_acceleration\<close> calls it\<close>
  "tracer_acc G M_eff xs xB r_soft_sq method =
     (case unit_separations xs xB of (dx, r_sq, r) \<Rightarrow> calc_acc G M_eff dx r_sq r_soft_sq method)"

definition momentum_flux :: "real \<Rightarrow> real \<Rightarrow> real list \<Rightarrow> vec3 \<Rightarrow> vec3 \<Rightarrow> vec3 list \<Rightarrow> vec3" where
  \<comment> \<open>\<open>M1\<cdot>dvdtBH1 + M2\<cdot>dvdtBH2 + \<Sum>\<^sub>i m\<^sub>i\<cdot>dvdtDM\<^sub>i\<close>\<close>
  "momentum_flux M1_eff M2_eff ms a1 a2 a_dm =
     vadd (vadd (smul M1_eff a1) (smul M2_eff a2)) (weighted_sum ms a_dm)"

primrec sub_steps :: "nat \<Rightarrow> ('s \<Rightarrow> error + 's) \<Rightarrow> 's \<Rightarrow> error + 's" where
  \<comment> \<open>the specification's "executed as that many full steps": \<open>n\<close> steps, one after the
      other, each starting from the state the one before left\<close>
  "sub_steps 0 body s = Inr s"
| "sub_steps (Suc n) body s = bindE (body s) (sub_steps n body)"

inductive reachable :: "real \<Rightarrow> simulator \<Rightarrow> simulator \<Rightarrow> bool" for G :: real and s0 :: simulator where
  \<comment> \<open>the states a simulator passes through when its methods are called and return\<close>
  start: "reachable G s0 s0"
| force: "reachable G s0 s \<Longrightarrow> update_acceleration G s = Inr s' \<Longrightarrow> reachable G s0 s'"
| step: "reachable G s0 s \<Longrightarrow> full_step G s dt method inds = Inr s' \<Longrightarrow> reachable G s0 s'"
| adaptive: "reachable G s0 s \<Longrightarrow> adaptive_step G s dt method eta n_max = Inr s' \<Longrightarrow> reachable G s0 s'"

definition stage :: "real \<Rightarrow> (simulator \<Rightarrow> error + simulator) \<Rightarrow> bool" where
  \<comment> \<open>every stage of a step is a drift, a kick or a force evaluation\<close>
  "stage G f \<longleftrightarrow> (\<exists>args. f = call_xstep args) \<or> (\<exists>args. f = call_vstep args) \<or> f = update_acceleration G"

subsection \<open>Objects and arrays in a store\<close>

text \<open>
  A \<^verbatim>\<open>particles\<close> object and each of its numpy arrays is a cell of its own: an attribute
  that holds an array holds its address, and \<^verbatim>\<open>+=\<close> on it overwrites the cell in place.
  The accelerations are only ever assigned, each time to a new array, and masses, counts
  and flags are immutable values: they are kept in the cell of the object.
\<close>

type_synonym addr = nat

record pobj =
  o_M_1 :: real
  o_M_2 :: real
  o_M_DM :: addr
  o_N_DM :: nat
  o_xBH1 :: addr
  o_vBH1 :: addr
  o_xBH2 :: addr
  o_vBH2 :: addr
  o_xDM :: addr
  o_vDM :: addr
  o_dvdtBH1 :: "vec3 attr"
  o_dvdtBH2 :: "vec3 attr"
  o_dvdtDM :: "vec3 list attr"
  o_dynamic_BH :: bool

datatype cell = Vec vec3 | Rows "vec3 list" | Weights "real list" | Object pobj

record store =
  cells :: "addr \<Rightarrow> cell option"
  top :: addr

definition get_vec :: "store \<Rightarrow> addr \<Rightarrow> vec3 option" where
  "get_vec st a = (case cells st a of Some (Vec v) \<Rightarrow> Some v | _ \<Rightarrow> None)"

definition get_rows :: "store \<Rightarrow> addr \<Rightarrow> vec3 list option" where
  "get_rows st a = (case cells st a of Some (Rows rs) \<Rightarrow> Some rs | _ \<Rightarrow> None)"

definition get_weights :: "store \<Rightarrow> addr \<Rightarrow> real list option" where
  "get_weights st a = (case cells st a of Some (Weights ms) \<Rightarrow> Some ms | _ \<Rightarrow> None)"

definition get_object :: "store \<Rightarrow> addr \<Rightarrow> pobj option" where
  "get_object st a = (case cells st a of Some (Object ob) \<Rightarrow> Some ob | _ \<Rightarrow> None)"

definition load :: "store \<Rightarrow> addr \<Rightarrow> particles option" where
  \<comment> \<open>the particle set that the object at \<open>a\<close> and its arrays hold\<close>
  "load st a = do {
     ob \<leftarrow> get_object st a;
     ms \<leftarrow> get_weights st (o_M_DM ob);
     x1 \<leftarrow> get_vec st (o_xBH1 ob);
     v1 \<leftarrow> get_vec st (o_vBH1 ob);
     x2 \<leftarrow> get_vec st (o_xBH2 ob);
     v2 \<leftarrow> get_vec st (o_vBH2 ob);
     xs \<leftarrow> get_rows st (o_xDM ob);
     vs \<leftarrow> get_rows st (o_vDM ob);
     Some \<lparr> M_1 = o_M_1 ob, M_2 = o_M_2 ob, M_DM = ms, N_DM = o_N_DM ob,
            xBH1 = x1, vBH1 = v1, xBH2 = x2, vBH2 = v2, xDM = xs, vDM = vs,
            dvdtBH1 = o_dvdtBH1 ob, dvdtBH2 = o_dvdtBH2 ob, dvdtDM = o_dvdtDM ob,
            dynamic_BH = o_dynamic_BH ob \<rparr> }"

definition alloc :: "cell \<Rightarrow> store \<Rightarrow> addr \<times> store" where
  \<comment> \<open>a new cell, at an address never used before\<close>
  "alloc c st = (top st, st \<lparr> cells := (cells st)(top st \<mapsto> c), top := Suc (top st) \<rparr>)"

definition copy_array :: "addr \<Rightarrow> store \<Rightarrow> (addr \<times> store) option" where
  "copy_array a st =
     (case cells st a of
        None \<Rightarrow> None
      | Some (Object ob) \<Rightarrow> None
      | Some c \<Rightarrow> Some (alloc c st))"

fun copy_arrays :: "addr list \<Rightarrow> store \<Rightarrow> (addr list \<times> store) option" where
  \<comment> \<open>copies of the arrays at the given addresses, in order\<close>
  "copy_arrays [] st = Some ([], st)"
| "copy_arrays (a # as) st =
     (case copy_array a st of
        None \<Rightarrow> None
      | Some (b, st1) \<Rightarrow>
          (case copy_arrays as st1 of
             None \<Rightarrow> None
           | Some (bs, st2) \<Rightarrow> Some (b # bs, st2)))"

definition deepcopy :: "addr \<Rightarrow> store \<Rightarrow> (addr \<times> store) option" where
  \<comment> \<open>\<^verbatim>\<open>copy.deepcopy(particle_set)\<close>, by its contract: a new object whose arrays are new
      arrays with the contents of the old ones\<close>
  "deepcopy a st =
     (case get_object st a of
        None \<Rightarrow> None
      | Some ob \<Rightarrow>
          (case copy_arrays [o_M_DM ob, o_xBH1 ob, o_vBH1 ob, o_xBH2 ob, o_vBH2 ob,
                             o_xDM ob, o_vDM ob] st of
             Some ([ms, x1, v1, x2, v2, xs, vs], st') \<Rightarrow>
               Some (alloc (Object (ob \<lparr> o_M_DM := ms, o_xBH1 := x1, o_vBH1 := v1,
                                         o_xBH2 := x2, o_vBH2 := v2, o_xDM := xs,
                                         o_vDM := vs \<rparr>)) st')
           | _ \<Rightarrow> None))"

definition write_back :: "addr \<Rightarrow> particles \<Rightarrow> store \<Rightarrow> store option" where
  \<comment> \<open>the effect on the store of a method that has taken the particle set at \<open>a\<close> to
      \<open>q\<close>: the positions and velocities are overwritten in their arrays (\<^verbatim>\<open>+=\<close>), the
      accelerations are assigned in the object; nothing else is written\<close>
  "write_back a q st = do {
     ob \<leftarrow> get_object st a;
     Some (st \<lparr> cells := (cells st)
             (o_xBH1 ob \<mapsto> Vec (xBH1 q), o_vBH1 ob \<mapsto> Vec (vBH1 q),
              o_xBH2 ob \<mapsto> Vec (xBH2 q), o_vBH2 ob \<mapsto> Vec (vBH2 q),
              o_xDM ob \<mapsto> Rows (xDM q), o_vDM ob \<mapsto> Rows (vDM q),
              a \<mapsto> Object (ob \<lparr> o_dvdtBH1 := dvdtBH1 q, o_dvdtBH2 := dvdtBH2 q,
                                  o_dvdtDM := dvdtDM q \<rparr>)) \<rparr>) }"

text \<open>
  A simulator in the store: the store, the address that \<^verbatim>\<open>self.p\<close> holds, and the other
  attributes of the simulator (the field \<open>p\<close> of the record is the particle set as last
  loaded).
\<close>

type_synonym stored_simulator = "store \<times> addr \<times> simulator"

definition stored_init :: "store \<Rightarrow> addr \<Rightarrow> real \<Rightarrow> real \<Rightarrow> string \<Rightarrow> error + stored_simulator" where
  \<comment> \<open>\<^verbatim>\<open>simulator(particle_set, ...)\<close> for the particle set at address \<open>a\<close>:
      \<^verbatim>\<open>self.p = copy.deepcopy(particle_set)\<close>\<close>
  "stored_init st a soft_sq2 soft_sq1 soft =
     (case deepcopy a st of
        None \<Rightarrow> Inl AttributeError
      | Some (a', st') \<Rightarrow>
          (case load st' a' of
             None \<Rightarrow> Inl AttributeError
           | Some q \<Rightarrow> bindE (simulator_init q soft_sq2 soft_sq1 soft) (\<lambda>sim. Inr (st', a', sim))))"

definition stored_call :: "(simulator \<Rightarrow> error + simulator) \<Rightarrow> stored_simulator \<Rightarrow> error + stored_simulator" where
  \<comment> \<open>a method of the simulator, run on the particle set that \<^verbatim>\<open>self.p\<close> points to\<close>
  "stored_call f c =
     (case c of (st, a, sim) \<Rightarrow>
        (case load st a of
           None \<Rightarrow> Inl AttributeError
         | Some q \<Rightarrow>
             bindE (f (sim \<lparr> p := q \<rparr>)) (\<lambda>sim'.
               (case write_back a (p sim') st of
                  None \<Rightarrow> Inl AttributeError
                | Some st' \<Rightarrow> Inr (st', a, sim')))))"

inductive stored_run :: "real \<Rightarrow> stored_simulator \<Rightarrow> stored_simulator \<Rightarrow> bool" for G :: real and c0 :: stored_simulator where
  \<comment> \<open>any sequence of calls of \<^verbatim>\<open>update_acceleration\<close>, \<^verbatim>\<open>full_step\<close> and
      \<^verbatim>\<open>adaptive_step\<close> that return\<close>
  run_start: "stored_run G c0 c0"
| run_force: "stored_run G c0 c \<Longrightarrow> stored_call (update_acceleration G) c = Inr c' \<Longrightarrow> stored_run G c0 c'"
| run_step: "stored_run G c0 c \<Longrightarrow>
    stored_call (\<lambda>s. full_step G s dt scheme inds) c = Inr c' \<Longrightarrow> stored_run G c0 c'"
| run_adaptive: "stored_run G c0 c \<Longrightarrow>
    stored_call (\<lambda>s. adaptive_step G s dt scheme eta n_max) c = Inr c' \<Longrightarrow> stored_run G c0 c'"

definition store_ok :: "store \<Rightarrow> bool" where
  \<comment> \<open>no cell at or above the allocation pointer\<close>
  "store_ok st \<longleftrightarrow> (\<forall>a. top st \<le> a \<longrightarrow> cells st a = None)"

definition same_below :: "addr \<Rightarrow> store \<Rightarrow> store \<Rightarrow> bool" where
  \<comment> \<open>every cell below \<open>n\<close> is in \<open>st'\<close> what it is in \<open>st\<close>\<close>
  "same_below n st st' \<longleftrightarrow> (\<forall>a. a < n \<longrightarrow> cells st' a = cells st a)"

definition owns_above :: "addr \<Rightarrow> store \<Rightarrow> addr \<Rightarrow> bool" where
  \<comment> \<open>the object at \<open>a\<close> and the arrays it writes to lie at or above \<open>n\<close>\<close>
  "owns_above n st a \<longleftrightarrow>
     (case get_object st a of
        None \<Rightarrow> False
      | Some ob \<Rightarrow> n \<le> a \<and> n \<le> o_xBH1 ob \<and> n \<le> o_vBH1 ob \<and> n \<le> o_xBH2 ob \<and>
                   n \<le> o_vBH2 ob \<and> n \<le> o_xDM ob \<and> n \<le> o_vDM ob)"

subsection \<open>A small binary with one tracer\<close>

definition example_particles :: particles where
  \<comment> \<open>\<^verbatim>\<open>particles(4.0, 1.0, N_DM=1, M_DM=0.5)\<close> with the secondary moved to \<open>(1, 0, 0)\<close> and
      the tracer to \<open>(-1, 0, 0)\<close>\<close>
  "example_particles =
     (particles_init 4 1 1 (1 / 2) True)
       \<lparr> xBH2 := (1, 0, 0), vBH2 := (0, 1, 0), xDM := [(- 1, 0, 0)], vDM := [(0, 0, 1)] \<rparr>"

definition example_simulator :: simulator where
  \<comment> \<open>\<^verbatim>\<open>simulator(example_particles)\<close> with the default arguments\<close>
  "example_simulator =
     \<lparr> p = example_particles, r_soft_sq2 = 0, r_soft_sq1 = 0,
       soft_method = ''empty_shell'', soft_method1 = ''uniform'', background_field = None,
       acc_DM1 = Unset, acc_DM2 = Unset, r1_min = Unset, r2_min = Unset \<rparr>"

definition example_forced :: simulator where
  \<comment> \<open>\<open>example_simulator\<close> after one force evaluation with \<open>G = 1\<close>\<close>
  "example_forced =
     example_simulator
       \<lparr> p := example_particles
               \<lparr> dvdtBH1 := Val (1 / 2, 0, 0), dvdtBH2 := Val (- (33 / 8), 0, 0),
                 dvdtDM := Val [(17 / 4, 0, 0)] \<rparr>,
         acc_DM1 := Val [(4, 0, 0)], acc_DM2 := Val [(1 / 4, 0, 0)],
         r1_min := Val 1, r2_min := Val 2 \<rparr>"

definition fixed_simulator :: simulator where
  \<comment> \<open>the same binary with the primary held fixed\<close>
  "fixed_simulator = example_simulator \<lparr> p := example_particles \<lparr> dynamic_BH := False \<rparr> \<rparr>"

definition fixed_forced :: simulator where
  \<comment> \<open>\<open>fixed_simulator\<close> after one force evaluation with \<open>G = 1\<close>\<close>
  "fixed_forced =
     fixed_simulator
       \<lparr> p := (p fixed_simulator)
               \<lparr> dvdtBH1 := Val (0, 0, 0), dvdtBH2 := Val (- (41 / 8), 0, 0),
                 dvdtDM := Val [(26 / 5, 0, 0)] \<rparr>,
         acc_DM1 := Val [(5, 0, 0)], acc_DM2 := Val [(1 / 5, 0, 0)],
         r1_min := Val 1, r2_min := Val 2 \<rparr>"

definition single_simulator :: simulator where
  \<comment> \<open>\<^verbatim>\<open>simulator(single_BH(4.0))\<close>, one fixed body without secondary mass and without tracers,
      with a velocity given to the massless secondary\<close>
  "single_simulator =
     example_simulator \<lparr> p := (particles_init 4 0 0 0 False) \<lparr> vBH2 := (0, 1, 0) \<rparr> \<rparr>"

definition single_stepped :: simulator where
  \<comment> \<open>\<open>single_simulator\<close> after one "PEFRL" step of size 1\<close>
  "single_stepped =
     single_simulator
       \<lparr> p := (p single_simulator)
               \<lparr> xBH2 := (0, 1, 0), dvdtBH1 := Val (0, 0, 0), dvdtBH2 := Val (0, 0, 0),
                 dvdtDM := Val [] \<rparr>,
         acc_DM1 := Val [], acc_DM2 := Val [] \<rparr>"

definition single_object :: pobj where
  "single_object =
     \<lparr> o_M_1 = 4, o_M_2 = 0, o_M_DM = 0, o_N_DM = 0, o_xBH1 = 1, o_vBH1 = 2, o_xBH2 = 3,
       o_vBH2 = 4, o_xDM = 5, o_vDM = 6, o_dvdtBH1 = PyNone, o_dvdtBH2 = PyNone,
       o_dvdtDM = Unset, o_dynamic_BH = False \<rparr>"

definition single_store :: store where
  \<comment> \<open>the particle set of \<open>single_simulator\<close> as the caller holds it: the object at
      address 7, its arrays at 0 to 6\<close>
  "single_store =
     \<lparr> cells = (\<lambda>a. None)
         (0 \<mapsto> Weights [], 1 \<mapsto> Vec vzero, 2 \<mapsto> Vec vzero, 3 \<mapsto> Vec vzero,
          4 \<mapsto> Vec (0, 1, 0), 5 \<mapsto> Rows [], 6 \<mapsto> Rows [], 7 \<mapsto> Object single_object),
       top = 8 \<rparr>"

definition single_copied :: store where
  \<comment> \<open>\<open>single_store\<close> after the construction of a simulator: the copy at 8 to 15\<close>
  "single_copied =
     \<lparr> cells = (cells single_store)
         (8 \<mapsto> Weights [], 9 \<mapsto> Vec vzero, 10 \<mapsto> Vec vzero, 11 \<mapsto> Vec vzero,
          12 \<mapsto> Vec (0, 1, 0), 13 \<mapsto> Rows [], 14 \<mapsto> Rows [],
          15 \<mapsto> Object (single_object \<lparr> o_M_DM := 8, o_xBH1 := 9, o_vBH1 := 10, o_xBH2 := 11,
                                           o_vBH2 := 12, o_xDM := 13, o_vDM := 14 \<rparr>)),
       top = 16 \<rparr>"

definition single_moved :: store where
  \<comment> \<open>\<open>single_copied\<close> after one "PEFRL" step of size 1 of that simulator\<close>
  "single_moved =
     single_copied
       \<lparr> cells := (cells single_copied)
           (11 \<mapsto> Vec (0, 1, 0),
            15 \<mapsto> Object (single_object
                    \<lparr> o_M_DM := 8, o_xBH1 := 9, o_vBH1 := 10, o_xBH2 := 11, o_vBH2 := 12,
                      o_xDM := 13, o_vDM := 14, o_dvdtBH1 := Val (0, 0, 0),
                      o_dvdtBH2 := Val (0, 0, 0), o_dvdtDM := Val [] \<rparr>)) \<rparr>"

section \<open>Properties\<close>

subsection \<open>Unfolding, inversion and frame lemmas\<close>

lemmas kernel_defs = calc_acc_def plummer_row_def plummer2_row_def newton_row_def soft_x_def
  uniform_old_row_def uniform_inside_def uniform_row_def truncate_row_def empty_shell_row_def
  np_div_def np_sqrt_def np_powr_def np_mul_def np_smul_def np_vdiv_def np_min_def np_clip_def

lemmas vec_defs = vadd_def vsub_def smul_def vzero_def norm_sq_def vsum_def weighted_sum_def

lemmas force_defs = update_acceleration_def eff_masses_def unit_separations_def closest_def
  acc_BH_of_def body_acc_def add_field_def store_acceleration_def secondary_acc_def
  finite_rows_def finite_row_def bindE_def

lemmas example_defs = example_simulator_def example_particles_def particles_init_def
  example_forced_def fixed_simulator_def fixed_forced_def single_simulator_def single_stepped_def

lemmas step_defs = full_step_def call_xstep_def call_vstep_def xstep_def vstep_def drift_def
  read_attr_def xi_def lam_def chi_def

lemma bindE_Inr: "bindE m f = Inr y \<longleftrightarrow> (\<exists>x. m = Inr x \<and> f x = Inr y)"
  by (cases m) (simp_all add: bindE_def)

lemma those_map_Some: "those (map Some fs) = Some fs"
  by (induction fs) simp_all

lemma those_SomeD: "those rows = Some fs \<Longrightarrow> rows = map Some fs"
  by (induction rows arbitrary: fs) (auto split: option.splits)

lemma finite_rows_Inr: "finite_rows rows = Inr fs \<longleftrightarrow> rows = map Some fs"
  by (auto simp: finite_rows_def those_map_Some dest: those_SomeD split: option.splits)

lemma finite_row_Inr: "finite_row row = Inr f \<longleftrightarrow> row = Some f"
  by (simp add: finite_row_def split: option.splits)

lemma update_acceleration_Inr:
  assumes ok: "update_acceleration G s = Inr s'"
    and us: "unit_separations (xDM (p s)) (xBH1 (p s)) = (dx1, r1_sq, r1)"
  obtains M1_eff M2_eff r1m r2m f1 f2 fb where
    "eff_masses (p s) = Inr (M1_eff, M2_eff)"
    "closest (N_DM (p s)) r1 (r1_min s) = Inr r1m"
    "calc_acc G M1_eff dx1 r1_sq (r_soft_sq1 s) (soft_method1 s) = Inr (map Some f1)"
    "secondary_acc G s M2_eff (length f1) = Inr (r2m, map Some f2, Some fb)"
    "dynamic_BH (p s) \<Longrightarrow> M1_eff \<noteq> 0" "0 < M_2 (p s) \<Longrightarrow> M2_eff \<noteq> 0"
    "s' = store_acceleration s M1_eff M2_eff r1m r2m f1 f2 fb"
proof -
  from ok obtain M1_eff M2_eff where em: "eff_masses (p s) = Inr (M1_eff, M2_eff)"
    by (auto simp: update_acceleration_def Let_def bindE_Inr)
  from ok em us obtain r1m where cl: "closest (N_DM (p s)) r1 (r1_min s) = Inr r1m"
    by (auto simp: update_acceleration_def Let_def bindE_Inr)
  from ok em us cl obtain acc1 where
    a1: "calc_acc G M1_eff dx1 r1_sq (r_soft_sq1 s) (soft_method1 s) = Inr acc1"
    by (auto simp: update_acceleration_def Let_def bindE_Inr)
  from ok em us cl a1 obtain r2m acc2 acc_BH where
    sec: "secondary_acc G s M2_eff (length acc1) = Inr (r2m, acc2, acc_BH)"
    by (auto simp: update_acceleration_def Let_def bindE_Inr)
  from ok em us cl a1 sec have
    rest: "(if dynamic_BH (p s) \<and> M1_eff = 0 then Inl ZeroDivisionError
      else if 0 < M_2 (p s) \<and> M2_eff = 0 then Inl ZeroDivisionError
      else
        bindE (finite_rows acc1) (\<lambda>f1.
        bindE (finite_rows acc2) (\<lambda>f2.
        bindE (finite_row acc_BH) (\<lambda>fb.
          Inr (store_acceleration s M1_eff M2_eff r1m r2m f1 f2 fb))))) = Inr s'"
    by (simp add: update_acceleration_def Let_def bindE_def)
  then have nz: "\<not> (dynamic_BH (p s) \<and> M1_eff = 0)" "\<not> (0 < M_2 (p s) \<and> M2_eff = 0)"
    by (auto split: if_splits)
  with rest obtain f1 f2 fb where
    "acc1 = map Some f1" "acc2 = map Some f2" "acc_BH = Some fb"
    "s' = store_acceleration s M1_eff M2_eff r1m r2m f1 f2 fb"
    by (auto simp: bindE_Inr finite_rows_Inr finite_row_Inr)
  with em cl a1 sec nz that show thesis by auto
qed

text \<open>the fields a force evaluation leaves alone\<close>

lemma store_acceleration_frame:
  "M_1 (p (store_acceleration s a b c d e f g)) = M_1 (p s)"
  "M_2 (p (store_acceleration s a b c d e f g)) = M_2 (p s)"
  "M_DM (p (store_acceleration s a b c d e f g)) = M_DM (p s)"
  "N_DM (p (store_acceleration s a b c d e f g)) = N_DM (p s)"
  "xBH1 (p (store_acceleration s a b c d e f g)) = xBH1 (p s)"
  "vBH1 (p (store_acceleration s a b c d e f g)) = vBH1 (p s)"
  "xBH2 (p (store_acceleration s a b c d e f g)) = xBH2 (p s)"
  "vBH2 (p (store_acceleration s a b c d e f g)) = vBH2 (p s)"
  "xDM (p (store_acceleration s a b c d e f g)) = xDM (p s)"
  "vDM (p (store_acceleration s a b c d e f g)) = vDM (p s)"
  "dynamic_BH (p (store_acceleration s a b c d e f g)) = dynamic_BH (p s)"
  "r_soft_sq1 (store_acceleration s a b c d e f g) = r_soft_sq1 s"
  "r_soft_sq2 (store_acceleration s a b c d e f g) = r_soft_sq2 s"
  "soft_method (store_acceleration s a b c d e f g) = soft_method s"
  "soft_method1 (store_acceleration s a b c d e f g) = soft_method1 s"
  "background_field (store_acceleration s a b c d e f g) = background_field s"
  by (simp_all add: store_acceleration_def Let_def)

lemma store_acceleration_result:
  "acc_DM1 (store_acceleration s a b c d e f g) = Val e"
  "acc_DM2 (store_acceleration s a b c d e f g) = Val f"
  "r1_min (store_acceleration s a b c d e f g) = c"
  "r2_min (store_acceleration s a b c d e f g) = d"
  by (simp_all add: store_acceleration_def Let_def)

lemma secondary_acc_Inr:
  assumes "secondary_acc G s M2_eff n = Inr (r2m, map Some f2, Some fb)" "0 < M_2 (p s)"
  shows "tracer_acc G M2_eff (xDM (p s)) (xBH2 (p s)) (r_soft_sq2 s) (soft_method s) = Inr (map Some f2)"
    and "acc_BH_of G M2_eff (xBH1 (p s)) (xBH2 (p s)) = Some fb"
  using assms
  by (auto simp: secondary_acc_def tracer_acc_def Let_def bindE_Inr split: prod.splits)

lemma update_acceleration_frame:
  assumes "update_acceleration G s = Inr s'"
  shows "M_1 (p s') = M_1 (p s)" "M_2 (p s') = M_2 (p s)" "M_DM (p s') = M_DM (p s)"
    "N_DM (p s') = N_DM (p s)" "xBH1 (p s') = xBH1 (p s)" "vBH1 (p s') = vBH1 (p s)"
    "xBH2 (p s') = xBH2 (p s)" "vBH2 (p s') = vBH2 (p s)" "xDM (p s') = xDM (p s)"
    "vDM (p s') = vDM (p s)" "dynamic_BH (p s') = dynamic_BH (p s)"
    "r_soft_sq1 s' = r_soft_sq1 s" "r_soft_sq2 s' = r_soft_sq2 s"
    "soft_method s' = soft_method s" "soft_method1 s' = soft_method1 s"
    "background_field s' = background_field s"
proof -
  obtain dx1 r1_sq r1 where "unit_separations (xDM (p s)) (xBH1 (p s)) = (dx1, r1_sq, r1)"
    by (cases "unit_separations (xDM (p s)) (xBH1 (p s))")
  from update_acceleration_Inr [OF assms this] obtain a b c d e f g
    where "s' = store_acceleration s a b c d e f g" by metis
  then show "M_1 (p s') = M_1 (p s)" "M_2 (p s') = M_2 (p s)" "M_DM (p s') = M_DM (p s)"
    "N_DM (p s') = N_DM (p s)" "xBH1 (p s') = xBH1 (p s)" "vBH1 (p s') = vBH1 (p s)"
    "xBH2 (p s') = xBH2 (p s)" "vBH2 (p s') = vBH2 (p s)" "xDM (p s') = xDM (p s)"
    "vDM (p s') = vDM (p s)" "dynamic_BH (p s') = dynamic_BH (p s)"
    "r_soft_sq1 s' = r_soft_sq1 s" "r_soft_sq2 s' = r_soft_sq2 s"
    "soft_method s' = soft_method s" "soft_method1 s' = soft_method1 s"
    "background_field s' = background_field s"
    by (simp_all add: store_acceleration_frame)
qed

lemma call_xstep_Inr: "call_xstep args s = Inr s' \<Longrightarrow> \<exists>h. s' = s \<lparr> p := xstep (p s) h \<rparr>"
  by (auto simp: call_xstep_def split: list.splits pyarg.splits)

lemma call_vstep_Inr: "call_vstep args s = Inr s' \<Longrightarrow> \<exists>h q. vstep (p s) h = Inr q \<and> s' = s \<lparr> p := q \<rparr>"
  by (auto simp: call_vstep_def bindE_Inr split: list.splits pyarg.splits)

lemma seqE_invariant:
  assumes "seqE fs s = Inr s'" "I s" "\<And>f t t'. f \<in> set fs \<Longrightarrow> I t \<Longrightarrow> f t = Inr t' \<Longrightarrow> I t'"
  shows "I s'"
  using assms
proof (induction fs arbitrary: s)
  case Nil
  then show ?case by simp
next
  case (Cons f fs)
  from Cons.prems(1) obtain t where t: "f s = Inr t" "seqE fs t = Inr s'"
    by (auto simp: bindE_Inr)
  from Cons.prems(2,3) t(1) have "I t" by (meson list.set_intros(1))
  with Cons.IH [OF t(2)] Cons.prems(3) show ?case by (meson list.set_intros(2))
qed

lemma stage_simps: "stage G (call_xstep args)" "stage G (call_vstep args)" "stage G (update_acceleration G)"
  by (auto simp: stage_def)

lemma full_step_stages:
  assumes ok: "full_step G s dt method inds = Inr s'"
  obtains fs where "seqE fs s = Inr s'" "list_all (stage G) fs"
  using ok unfolding full_step_def
  apply (simp split: if_splits del: seqE.simps)
      apply (erule that, simp add: stage_simps)+
  apply (rule that [of "[]"]; simp)
  done

lemma full_step_invariant:
  assumes ok: "full_step G s dt method inds = Inr s'" and "I s"
    and x: "\<And>t h. I t \<Longrightarrow> I (t \<lparr> p := xstep (p t) h \<rparr>)"
    and v: "\<And>t h q. I t \<Longrightarrow> vstep (p t) h = Inr q \<Longrightarrow> I (t \<lparr> p := q \<rparr>)"
    and u: "\<And>t t'. I t \<Longrightarrow> update_acceleration G t = Inr t' \<Longrightarrow> I t'"
  shows "I s'"
proof -
  have st: "I t'" if "stage G f" "I t" "f t = Inr t'" for f t t'
    using that x v u unfolding stage_def
    by (auto dest!: call_xstep_Inr call_vstep_Inr)
  from ok obtain fs where fs: "seqE fs s = Inr s'" "list_all (stage G) fs"
    by (rule full_step_stages)
  show ?thesis
  proof (rule seqE_invariant [where I = I, OF fs(1) \<open>I s\<close>])
    fix f t t' assume "f \<in> set fs" "I t" "f t = Inr t'"
    with st fs(2) show "I t'" unfolding list_all_iff by blast
  qed
qed

lemma xstep_fixed:
  "\<not> dynamic_BH q \<Longrightarrow> xBH1 (xstep q h) = xBH1 q \<and> vBH1 (xstep q h) = vBH1 q \<and> \<not> dynamic_BH (xstep q h)"
  by (simp add: xstep_def)

lemma vstep_fixed:
  "\<not> dynamic_BH q \<Longrightarrow> vstep q h = Inr q' \<Longrightarrow> xBH1 q' = xBH1 q \<and> vBH1 q' = vBH1 q \<and> \<not> dynamic_BH q'"
  by (auto simp: vstep_def bindE_Inr)

lemma update_acceleration_primary:
  assumes ok: "update_acceleration G s = Inr s'"
  obtains M1_eff M2_eff f1 f2 fb r1m r2m where
    "eff_masses (p s) = Inr (M1_eff, M2_eff)"
    "tracer_acc G M1_eff (xDM (p s)) (xBH1 (p s)) (r_soft_sq1 s) (soft_method1 s) = Inr (map Some f1)"
    "secondary_acc G s M2_eff (length f1) = Inr (r2m, map Some f2, Some fb)"
    "dynamic_BH (p s) \<longrightarrow> M1_eff \<noteq> 0" "0 < M_2 (p s) \<longrightarrow> M2_eff \<noteq> 0"
    "s' = store_acceleration s M1_eff M2_eff r1m r2m f1 f2 fb"
proof -
  obtain dx1 r1_sq r1 where us: "unit_separations (xDM (p s)) (xBH1 (p s)) = (dx1, r1_sq, r1)"
    by (cases "unit_separations (xDM (p s)) (xBH1 (p s))")
  show thesis
  proof (rule update_acceleration_Inr [OF ok us])
    fix M1_eff M2_eff r1m r2m f1 f2 fb
    assume "eff_masses (p s) = Inr (M1_eff, M2_eff)"
      "calc_acc G M1_eff dx1 r1_sq (r_soft_sq1 s) (soft_method1 s) = Inr (map Some f1)"
      "secondary_acc G s M2_eff (length f1) = Inr (r2m, map Some f2, Some fb)"
      "dynamic_BH (p s) \<Longrightarrow> M1_eff \<noteq> 0" "0 < M_2 (p s) \<Longrightarrow> M2_eff \<noteq> 0"
      "s' = store_acceleration s M1_eff M2_eff r1m r2m f1 f2 fb"
    with us that show thesis by (simp add: tracer_acc_def)
  qed
qed

lemma calc_acc_length:
  "calc_acc G M_eff dx r_sq r_soft_sq method = Inr acc \<Longrightarrow> length acc = min (length dx) (length r_sq)"
  by (auto simp: calc_acc_def split: if_splits)

lemma tracer_acc_length:
  "tracer_acc G M_eff xs xB r_soft_sq method = Inr acc \<Longrightarrow> length acc = length xs"
  by (auto simp: tracer_acc_def unit_separations_def Let_def dest!: calc_acc_length)

lemma map2_snd_id: "length xs = length ys \<Longrightarrow> map2 (\<lambda>x a. a) xs ys = ys"
  by (induction xs ys rule: list_induct2) simp_all

lemma vadd_assoc: "vadd (vadd a b) c = vadd a (vadd b c)"
  by (cases a; cases b; cases c) (simp add: vadd_def)

lemma vadd_commute: "vadd a b = vadd b a"
  by (cases a; cases b) (simp add: vadd_def)

lemma vadd_left_commute: "vadd a (vadd b c) = vadd b (vadd a c)"
  by (cases a; cases b; cases c) (simp add: vadd_def)

lemma smul_vadd: "smul c (vadd a b) = vadd (smul c a) (smul c b)"
  by (cases a; cases b) (simp add: vadd_def smul_def algebra_simps)

lemma weighted_sum_Cons:
  "weighted_sum (m # ms) (a # as) = vadd (smul m a) (weighted_sum ms as)"
  by (simp add: weighted_sum_def vsum_def)

lemma weighted_sum_Nil: "weighted_sum [] as = vzero" "weighted_sum ms [] = vzero"
  by (simp_all add: weighted_sum_def vsum_def)

lemma weighted_sum_add:
  "length f1 = length f2 \<Longrightarrow>
   weighted_sum ms (map2 vadd f1 f2) = vadd (weighted_sum ms f1) (weighted_sum ms f2)"
proof (induction f1 f2 arbitrary: ms rule: list_induct2)
  case Nil
  then show ?case by (simp add: weighted_sum_Nil vadd_def vzero_def)
next
  case (Cons a f1 b f2)
  show ?case
  proof (cases ms)
    case Nil
    then show ?thesis by (simp add: weighted_sum_Nil vadd_def vzero_def)
  next
    case (Cons m ms')
    with Cons.IH [of ms'] show ?thesis
      by (simp add: weighted_sum_Cons smul_vadd vadd_assoc vadd_left_commute)
  qed
qed

lemma momentum_balance:
  assumes "M1 \<noteq> 0" "M2 \<noteq> 0"
  shows "vadd (vadd (smul M1 (vsub fb (smul (1 / M1) w1)))
                    (smul M2 (vsub (smul (- (M1 / M2)) fb) (smul (1 / M2) w2))))
              (vadd w1 w2) = vzero"
  using assms
  by (cases fb; cases w1; cases w2) (simp add: vadd_def vsub_def smul_def vzero_def field_simps)


text \<open>loops, the adaptive controller and reachable states\<close>

lemma for_range_done: "\<not> i < n \<Longrightarrow> for_range i n body s = Inr s"
  by (subst for_range.simps) simp

lemma for_range_next: "i < n \<Longrightarrow> for_range i n body s = bindE (body s) (for_range (i + 1) n body)"
  by (subst for_range.simps) (simp add: bindE_def split: sum.splits)

lemma for_range_invariant:
  assumes "for_range i n body s = Inr s'" "I s" "\<And>t t'. I t \<Longrightarrow> body t = Inr t' \<Longrightarrow> I t'"
  shows "I s'"
  using assms
proof (induction i n body s rule: for_range.induct)
  case (1 i n body s)
  show ?case
  proof (cases "i < n")
    case False
    with "1.prems" show ?thesis by (simp add: for_range_done)
  next
    case True
    with "1.prems"(1) obtain t where t: "body s = Inr t" "for_range (i + 1) n body t = Inr s'"
      by (auto simp: for_range_next bindE_Inr)
    from "1.prems"(2,3) t(1) have "I t" by blast
    show ?thesis
      by (rule "1.IH" [OF True t(1) t(2) \<open>I t\<close>]) (rule "1.prems"(3))
  qed
qed

lemma adaptive_step_invariant:
  assumes ok: "adaptive_step G s dt scheme eta n_max = Inr s'" and "I s"
    and x: "\<And>t h. I t \<Longrightarrow> I (t \<lparr> p := xstep (p t) h \<rparr>)"
    and v: "\<And>t h q. I t \<Longrightarrow> vstep (p t) h = Inr q \<Longrightarrow> I (t \<lparr> p := q \<rparr>)"
    and u: "\<And>t t'. I t \<Longrightarrow> update_acceleration G t = Inr t' \<Longrightarrow> I t'"
  shows "I s'"
proof -
  have fs: "I t'" if "full_step G t h scheme None = Inr t'" "I t" for t t' h
    using full_step_invariant [where I = I, OF that] x v u by blast
  show ?thesis
  proof (cases "N_DM (p s) = 0")
    case True
    with ok fs \<open>I s\<close> show ?thesis by (simp add: adaptive_step_def)
  next
    case False
    with ok obtain s1 r where s1: "(case r2_min s of Unset \<Rightarrow> Inl AttributeError
               | PyNone \<Rightarrow> update_acceleration G s | Val r \<Rightarrow> Inr s) = Inr s1"
      and rest: "(case calc_dt_opt G r (M_2 (p s1)) eta of
            None \<Rightarrow> Inl NonFinite
          | Some dt_opt \<Rightarrow>
              if dt_opt \<ge> dt then full_step G s1 dt scheme None
              else if dt_opt = 0 then Inl OverflowError
              else
                (let N_sub = \<lceil>dt / dt_opt\<rceil>;
                     N_sub = (if N_sub > n_max then n_max else N_sub)
                 in if N_sub = 0 then Inl ZeroDivisionError
                    else for_range 0 N_sub
                           (\<lambda>s'. full_step G s' (dt / of_int N_sub) scheme None) s1)) = Inr s'"
      by (auto simp: adaptive_step_def bindE_Inr)
    from s1 u \<open>I s\<close> have "I s1" by (auto split: attr.splits)
    from rest show ?thesis
    proof (cases "calc_dt_opt G r (M_2 (p s1)) eta")
      case None
      with rest show ?thesis by simp
    next
      case (Some dt_opt)
      show ?thesis
      proof (cases "dt_opt \<ge> dt")
        case True
        with rest Some fs \<open>I s1\<close> show ?thesis by simp
      next
        case False
        with rest Some obtain N where "for_range 0 N (\<lambda>s'. full_step G s' (dt / of_int N) scheme None) s1 = Inr s'"
          by (auto simp: Let_def split: if_splits)
        from for_range_invariant [where I = I, OF this \<open>I s1\<close>] fs show ?thesis by blast
      qed
    qed
  qed
qed

lemma reachable_config:
  assumes "reachable G s0 s"
  shows "soft_method1 s = soft_method1 s0 \<and> soft_method s = soft_method s0"
  using assms
proof (induction rule: reachable.induct)
  case start
  show ?case by simp
next
  case (force s s')
  then show ?case by (simp add: update_acceleration_frame)
next
  case (step s dt scheme inds s')
  from step.hyps(2) step.IH show ?case
    by (rule full_step_invariant) (simp_all add: update_acceleration_frame)
next
  case (adaptive s dt scheme eta n_max s')
  from adaptive.hyps(2) adaptive.IH show ?case
    by (rule adaptive_step_invariant) (simp_all add: update_acceleration_frame)
qed

lemma closest_ok: "length r = n \<Longrightarrow> \<exists>m. closest n r old = Inr m"
  by (cases r) (auto simp: closest_def np_min_def bindE_def)

lemma calc_acc_uniform_ok: "\<exists>acc. calc_acc G M dx r_sq rs ''uniform'' = Inr acc"
  by (simp add: calc_acc_def)

lemma update_acceleration_unknown_kernel:
  assumes k1: "soft_method1 s = ''uniform''"
    and bad: "soft_method s \<notin> {''plummer'', ''plummer2'', ''uniform_old'', ''uniform'', ''truncate'', ''empty_shell''}"
    and m2: "0 < M_2 (p s)" and m1: "0 \<le> M_1 (p s)"
    and len: "length (xDM (p s)) = N_DM (p s)"
  shows "update_acceleration G s = Inl (ValueError (''Invalid softening method:'' @ soft_method s))"
proof -
  from m1 m2 have "\<exists>M1_eff M2_eff. eff_masses (p s) = Inr (M1_eff, M2_eff)"
    by (cases "dynamic_BH (p s)") (simp_all add: eff_masses_def)
  then obtain M1_eff M2_eff where em: "eff_masses (p s) = Inr (M1_eff, M2_eff)"
    by blast
  obtain dx1 r1_sq r1 where us1: "unit_separations (xDM (p s)) (xBH1 (p s)) = (dx1, r1_sq, r1)"
    by (cases "unit_separations (xDM (p s)) (xBH1 (p s))")
  obtain dx2 r2_sq r2 where us2: "unit_separations (xDM (p s)) (xBH2 (p s)) = (dx2, r2_sq, r2)"
    by (cases "unit_separations (xDM (p s)) (xBH2 (p s))")
  from us1 us2 len have l: "length r1 = N_DM (p s)" "length r2 = N_DM (p s)"
    by (auto simp: unit_separations_def Let_def)
  from closest_ok [OF l(1)] obtain r1m where cl1: "closest (N_DM (p s)) r1 (r1_min s) = Inr r1m"
    by blast
  from closest_ok [OF l(2)] obtain r2m where cl2: "closest (N_DM (p s)) r2 (r2_min s) = Inr r2m"
    by blast
  note cl = cl1 cl2
  obtain acc1 where a1: "calc_acc G M1_eff dx1 r1_sq (r_soft_sq1 s) (soft_method1 s) = Inr acc1"
    using k1 calc_acc_uniform_ok by metis
  from bad have a2: "calc_acc G M2_eff dx2 r2_sq (r_soft_sq2 s) (soft_method s) =
      Inl (ValueError (''Invalid softening method:'' @ soft_method s))"
    by (simp add: calc_acc_def)
  from m2 us2 cl(2) a2 have "secondary_acc G s M2_eff (length acc1) =
      Inl (ValueError (''Invalid softening method:'' @ soft_method s))"
    by (simp add: secondary_acc_def Let_def bindE_def)
  with em us1 cl(1) a1 show ?thesis
    by (simp add: update_acceleration_def Let_def bindE_def)
qed

lemma for_range_sub_steps: "for_range i n body s = sub_steps (nat (n - i)) body s"
proof (induction i n body s rule: for_range.induct)
  case (1 i n body s)
  show ?case
  proof (cases "i < n")
    case False
    then show ?thesis by (simp add: for_range_done)
  next
    case True
    then have n: "nat (n - i) = Suc (nat (n - (i + 1)))" by simp
    show ?thesis
    proof (cases "body s")
      case (Inl e)
      with True n show ?thesis by (simp add: for_range_next bindE_def)
    next
      case (Inr t)
      with True n "1.IH" [OF True Inr] show ?thesis by (simp add: for_range_next bindE_def)
    qed
  qed
qed

lemma np_period_Some:
  assumes "0 < r" "0 < a" "0 < eta"
  shows "np_mul (Some eta) (np_mul (Some (2 * pi)) (np_sqrt (np_div (r ^ 3) a))) =
           Some (eta * (2 * pi * sqrt (r ^ 3 / a)))"
    and "0 < eta * (2 * pi * sqrt (r ^ 3 / a))"
proof -
  from assms have "0 < r ^ 3 / a" by simp
  then have "\<not> r ^ 3 / a < 0" "0 < sqrt (r ^ 3 / a)" by simp_all
  with assms show "np_mul (Some eta) (np_mul (Some (2 * pi)) (np_sqrt (np_div (r ^ 3) a))) =
           Some (eta * (2 * pi * sqrt (r ^ 3 / a)))"
    and "0 < eta * (2 * pi * sqrt (r ^ 3 / a))"
    by (simp_all add: np_mul_def np_sqrt_def np_div_def)
qed

lemma calc_dt_opt_Some:
  assumes "0 < r" "0 < G * M" "0 < eta"
  shows "calc_dt_opt G r M eta = Some (eta * (2 * pi * sqrt (r ^ 3 / (G * M))))"
    and "0 < eta * (2 * pi * sqrt (r ^ 3 / (G * M)))"
  unfolding calc_dt_opt_def using np_period_Some [OF assms] by blast+

lemma pi_bound: "4 * pi < 100" "1 \<le> 4 * pi"
  using pi_less_4 pi_ge_two by simp_all

text \<open>the examples, evaluated\<close>

lemma update_acceleration_example: "update_acceleration 1 example_simulator = Inr example_forced"
  by (simp add: example_defs force_defs kernel_defs vec_defs Let_def)

lemma update_acceleration_fixed: "update_acceleration 1 fixed_simulator = Inr fixed_forced"
  by (simp add: example_defs force_defs kernel_defs vec_defs Let_def)

lemma full_step_single: "full_step 1 single_simulator 1 ''PEFRL'' None = Inr single_stepped"
  by (simp add: step_defs example_defs force_defs kernel_defs vec_defs Let_def)

lemma update_acceleration_forced: "update_acceleration 1 example_forced = Inr example_forced"
  by (simp add: example_defs force_defs kernel_defs vec_defs Let_def)

subsection \<open>The second-order schemes\<close>

text \<open>
  Claim C1 says that a step with scheme "DKD" runs drift \<open>dt/2\<close>, force, kick \<open>dt\<close>, drift
  \<open>dt/2\<close>, and a step with "KDK" runs force, kick \<open>dt/2\<close>, drift \<open>dt\<close>, force, kick
  \<open>dt/2\<close>. In the source both branches pass the extra argument \<^verbatim>\<open>inds\<close> to
  \<^verbatim>\<open>xstep\<close> and \<^verbatim>\<open>vstep\<close>, which take \<^verbatim>\<open>h\<close> only. So for every state, every \<open>dt\<close> and
  every \<^verbatim>\<open>inds\<close>, "DKD" raises \<^verbatim>\<open>TypeError\<close> at its first drift, and "KDK" raises at its
  first kick, unless its first force evaluation has raised already: neither scheme ever
  completes a step.
\<close>

theorem full_step_DKD_KDK_raise:
  "full_step G s dt ''DKD'' inds = Inl TypeError \<and>
   full_step G s dt ''KDK'' inds =
     (case update_acceleration G s of Inl e \<Rightarrow> Inl e | Inr s' \<Rightarrow> Inl TypeError)"
  by (simp add: full_step_def call_xstep_def call_vstep_def bindE_def split: sum.splits)

subsection \<open>An unknown scheme name\<close>

text \<open>
  Claim C2 says that a scheme name outside "DKD", "KDK", "FR", "PEFRL" is reported as a
  fatal error and that a step never returns with the state unchanged and no error. In the
  source the chain of tests on the name has no final \<^verbatim>\<open>else\<close>: for every such name
  \<^verbatim>\<open>full_step\<close> returns normally and the state is the one it was given.
\<close>

theorem full_step_unknown_scheme_unchanged:
  "method \<notin> {''DKD'', ''KDK'', ''FR'', ''PEFRL''} \<Longrightarrow> full_step G s dt method inds = Inr s"
  by (simp add: full_step_def)

theorem full_step_unknown_scheme_unchanged_witness:
  "''RK4'' \<notin> {''DKD'', ''KDK'', ''FR'', ''PEFRL''} \<and>
   full_step 1 example_simulator (1 / 10) ''RK4'' None = Inr example_simulator"
proof -
  have h: "''RK4'' \<notin> {''DKD'', ''KDK'', ''FR'', ''PEFRL''}" by simp
  show ?thesis
    using h full_step_unknown_scheme_unchanged [OF h, of 1 example_simulator "1 / 10" None]
    by simp
qed

subsection \<open>The kernel "truncate"\<close>

lemma map2_Some_cong:
  assumes "\<And>d r. (d, r) \<in> set (zip ds rs) \<Longrightarrow> f (Some d) r = g d r"
  shows "map2 f (map Some ds) rs = map2 g ds rs"
  using assms by (induction ds rs rule: list_induct2') auto

text \<open>
  Claim C6 says that "truncate" divides by \<open>max(r\<^sup>2, r_soft\<^sup>2)\<close> for every separation, and so
  by \<open>r\<^sup>2\<close> for every \<open>r\<^sup>2 \<ge> r_soft\<^sup>2\<close>, however large. The source clips the squared
  separation from above as well, at \<open>10\<^sup>5\<^sup>0\<close>: with \<open>r\<^sup>2 = 10\<^sup>5\<^sup>1\<close> and \<open>r_soft\<^sup>2 = 1\<close> the
  divisor is \<open>10\<^sup>5\<^sup>0\<close>, not \<open>10\<^sup>5\<^sup>1\<close>.
\<close>

theorem calc_acc_truncate_unbounded_counterexample:
  "calc_acc 1 1 [Some (1, 0, 0)] [10 ^ 51] 1 ''truncate'' \<noteq>
     Inr [Some (smul (- 1 * 1 / max (10 ^ 51) 1) (1, 0, 0))]"
  by (simp add: calc_acc_def truncate_row_def np_clip_def np_smul_def np_div_def smul_def)

text \<open>
  Claim C6, amended: for finite unit separations and a positive clamped value, the
  acceleration of every tracer is \<open>-G\<cdot>M\<cdot>dx / min(max(r\<^sup>2, r_soft\<^sup>2), 10\<^sup>5\<^sup>0)\<close>; when moreover
  \<open>r_soft\<^sup>2 \<le> r\<^sup>2 \<le> 10\<^sup>5\<^sup>0\<close> for every tracer, it is \<open>-G\<cdot>M\<cdot>dx / r\<^sup>2\<close>.
\<close>

theorem calc_acc_truncate_clamped:
  assumes "list_all (\<lambda>r. 0 < max r r_soft_sq) r_sq"
  shows "calc_acc G M_eff (map Some dx) r_sq r_soft_sq ''truncate'' =
           Inr (map2 (\<lambda>d r. Some (smul (- G * M_eff / min (max r r_soft_sq) (10 ^ 50)) d)) dx r_sq)
         \<and> (list_all (\<lambda>r. r_soft_sq \<le> r \<and> r \<le> 10 ^ 50) r_sq \<longrightarrow>
              calc_acc G M_eff (map Some dx) r_sq r_soft_sq ''truncate'' =
                Inr (map2 (\<lambda>d r. Some (smul (- G * M_eff / r) d)) dx r_sq))"
proof -
  have clamped: "map2 (truncate_row G M_eff r_soft_sq) (map Some dx) r_sq =
        map2 (\<lambda>d r. Some (smul (- G * M_eff / min (max r r_soft_sq) (10 ^ 50)) d)) dx r_sq"
  proof (rule map2_Some_cong)
    fix d r assume "(d, r) \<in> set (zip dx r_sq)"
    then have "r \<in> set r_sq" by (rule set_zip_rightD)
    with assms have "0 < max r r_soft_sq" by (simp add: list_all_iff)
    then have "min (10 ^ 50) (max r r_soft_sq) \<noteq> 0" by (simp add: min_def)
    then show "truncate_row G M_eff r_soft_sq (Some d) r =
        Some (smul (- G * M_eff / min (max r r_soft_sq) (10 ^ 50)) d)"
      by (simp add: truncate_row_def np_clip_def np_smul_def np_div_def min.commute)
  qed
  have inside: "map2 (\<lambda>d r. Some (smul (- G * M_eff / min (max r r_soft_sq) (10 ^ 50)) d)) dx r_sq =
        map2 (\<lambda>d r. Some (smul (- G * M_eff / r) d)) dx r_sq"
    if range: "list_all (\<lambda>r. r_soft_sq \<le> r \<and> r \<le> 10 ^ 50) r_sq"
  proof -
    have "\<And>d r. (d, r) \<in> set (zip dx r_sq) \<Longrightarrow> min (max r r_soft_sq) (10 ^ 50) = r"
    proof -
      fix d r assume "(d, r) \<in> set (zip dx r_sq)"
      then have "r \<in> set r_sq" by (rule set_zip_rightD)
      with range have "r_soft_sq \<le> r \<and> r \<le> 10 ^ 50" by (simp add: list_all_iff)
      then show "min (max r r_soft_sq) (10 ^ 50) = r" by (simp add: max_def min_def)
    qed
    then show ?thesis by (auto intro!: map_cong)
  qed
  from clamped inside show ?thesis by (simp add: calc_acc_def)
qed

theorem calc_acc_truncate_clamped_witness:
  "(0::real) < max 4 1 \<and> (1::real) \<le> 4 \<and> (4::real) \<le> 10 ^ 50 \<and>
   calc_acc 1 1 [Some (1, 0, 0)] [4] 1 ''truncate'' = Inr [Some (smul (- 1 * 1 / 4) (1, 0, 0))]"
proof -
  have h: "list_all (\<lambda>r. 0 < max r (1::real)) [4]" by simp
  have r: "list_all (\<lambda>r. (1::real) \<le> r \<and> r \<le> 10 ^ 50) [4]" by simp
  from calc_acc_truncate_clamped [OF h, of 1 1 "[(1, 0, 0)]"] r
  have "calc_acc 1 1 (map Some [(1, 0, 0)]) [4] 1 ''truncate'' =
          Inr (map2 (\<lambda>d r. Some (smul (- 1 * 1 / r) d)) [(1, 0, 0)] [4])"
    by blast
  then show ?thesis by simp
qed

subsection \<open>The kernel "uniform" at the softening length\<close>

text \<open>
  Claim C8: for a positive softening length, at \<open>r\<^sup>2 = r_soft\<^sup>2\<close> the ratio \<open>x\<close> is \<open>1\<close>, the
  formula of the inside branch at \<open>x = 1\<close> and the formula of the outside branch at
  \<open>r\<^sup>2 = r_soft\<^sup>2\<close> both give \<open>-G\<cdot>M\<cdot>dx / r_soft\<^sup>2\<close>, of magnitude \<open>G\<cdot>M / r_soft\<^sup>2\<close> for a unit
  \<open>dx\<close>, and this is what \<^verbatim>\<open>calc_acc\<close> returns there.
\<close>

theorem calc_acc_uniform_continuous_at_r_soft:
  assumes "0 < r_soft_sq"
  shows "soft_x r_soft_sq r_soft_sq = Some 1 \<and>
         uniform_inside G M_eff r_soft_sq (Some dx) 1 = Some (smul (- (G * M_eff) / r_soft_sq) dx) \<and>
         newton_row G M_eff (Some dx) r_soft_sq = Some (smul (- (G * M_eff) / r_soft_sq) dx) \<and>
         calc_acc G M_eff [Some dx] [r_soft_sq] r_soft_sq ''uniform'' =
           Inr [Some (smul (- (G * M_eff) / r_soft_sq) dx)]"
  using assms
  by (simp add: soft_x_def np_sqrt_def np_div_def uniform_inside_def newton_row_def
      np_smul_def calc_acc_def uniform_row_def)

theorem calc_acc_uniform_continuous_at_r_soft_witness:
  "(0::real) < 4 \<and>
   uniform_inside 1 1 4 (Some (1, 0, 0)) 1 = newton_row 1 1 (Some (1, 0, 0)) 4 \<and>
   calc_acc 1 1 [Some (1, 0, 0)] [4] 4 ''uniform'' = Inr [Some (- (1 / 4), 0, 0)]"
proof -
  have h: "(0::real) < 4" by simp
  show ?thesis
    using h calc_acc_uniform_continuous_at_r_soft [OF h, of 1 1 "(1, 0, 0)"]
    by (simp add: smul_def)
qed

subsection \<open>A fixed primary\<close>

text \<open>
  Claim C5: when the flag \<^verbatim>\<open>dynamic_BH\<close> is false, a drift and a kick leave the position and
  the velocity of the primary as they were, and so does every completed step; a force
  evaluation that completes has used \<open>M1_eff = M\<^sub>1 + M\<^sub>2\<close> for the tracer accelerations from
  the primary and \<open>M2_eff = M\<^sub>1\<cdot>M\<^sub>2 / (M\<^sub>1 + M\<^sub>2)\<close> for those from the secondary, for the
  acceleration between the bodies and for the reaction on the secondary, and has not moved
  the primary either.
\<close>

theorem fixed_primary_stages_and_masses:
  assumes fixed: "\<not> dynamic_BH (p s)"
  shows
    "xBH1 (xstep (p s) h) = xBH1 (p s) \<and> vBH1 (xstep (p s) h) = vBH1 (p s) \<and>
     (\<forall>q'. vstep (p s) h = Inr q' \<longrightarrow> xBH1 q' = xBH1 (p s) \<and> vBH1 q' = vBH1 (p s)) \<and>
     (\<forall>dt method inds s'. full_step G s dt method inds = Inr s' \<longrightarrow>
        xBH1 (p s') = xBH1 (p s) \<and> vBH1 (p s') = vBH1 (p s) \<and> \<not> dynamic_BH (p s')) \<and>
     (\<forall>s'. update_acceleration G s = Inr s' \<longrightarrow>
        (let M1_eff = M_1 (p s) + M_2 (p s);
             M2_eff = M_1 (p s) * M_2 (p s) / (M_1 (p s) + M_2 (p s))
         in eff_masses (p s) = Inr (M1_eff, M2_eff) \<and>
            (\<exists>f1. tracer_acc G M1_eff (xDM (p s)) (xBH1 (p s)) (r_soft_sq1 s) (soft_method1 s)
                     = Inr (map Some f1) \<and>
                   acc_DM1 s' = Val f1) \<and>
            (0 < M_2 (p s) \<longrightarrow>
               (\<exists>f2 fb. tracer_acc G M2_eff (xDM (p s)) (xBH2 (p s)) (r_soft_sq2 s) (soft_method s)
                           = Inr (map Some f2) \<and>
                         acc_BH_of G M2_eff (xBH1 (p s)) (xBH2 (p s)) = Some fb \<and>
                         acc_DM2 s' = Val f2 \<and>
                         dvdtBH2 (p s') =
                           Val (add_field (background_field s) (xBH2 (p s))
                                  (body_acc (- (M1_eff / M2_eff)) M2_eff (M_DM (p s)) fb f2)))) \<and>
            xBH1 (p s') = xBH1 (p s) \<and> vBH1 (p s') = vBH1 (p s) \<and> \<not> dynamic_BH (p s')))"
proof (intro conjI allI impI)
  show "xBH1 (xstep (p s) h) = xBH1 (p s)" "vBH1 (xstep (p s) h) = vBH1 (p s)"
    using fixed by (simp_all add: xstep_fixed)
next
  fix q' assume "vstep (p s) h = Inr q'"
  with fixed show "xBH1 q' = xBH1 (p s)" "vBH1 q' = vBH1 (p s)"
    by (simp_all add: vstep_fixed)
next
  fix dt scheme inds s' assume ok: "full_step G s dt scheme inds = Inr s'"
  let ?I = "\<lambda>t. xBH1 (p t) = xBH1 (p s) \<and> vBH1 (p t) = vBH1 (p s) \<and> \<not> dynamic_BH (p t)"
  have "?I s'"
  proof (rule full_step_invariant [where I = ?I, OF ok])
    show "?I s" using fixed by simp
  next
    fix t h assume "?I t"
    then show "?I (t \<lparr> p := xstep (p t) h \<rparr>)" by (simp add: xstep_fixed)
  next
    fix t h q assume "?I t" "vstep (p t) h = Inr q"
    then show "?I (t \<lparr> p := q \<rparr>)" using vstep_fixed [of "p t" h q] by simp
  next
    fix t t' assume "?I t" "update_acceleration G t = Inr t'"
    then show "?I t'" by (simp add: update_acceleration_frame)
  qed
  then show "xBH1 (p s') = xBH1 (p s)" "vBH1 (p s') = vBH1 (p s)" "\<not> dynamic_BH (p s')"
    by simp_all
next
  fix s' assume ok: "update_acceleration G s = Inr s'"
  from ok obtain M1_eff M2_eff f1 f2 fb r1m r2m where
    em: "eff_masses (p s) = Inr (M1_eff, M2_eff)"
    and t1: "tracer_acc G M1_eff (xDM (p s)) (xBH1 (p s)) (r_soft_sq1 s) (soft_method1 s) = Inr (map Some f1)"
    and sec: "secondary_acc G s M2_eff (length f1) = Inr (r2m, map Some f2, Some fb)"
    and s': "s' = store_acceleration s M1_eff M2_eff r1m r2m f1 f2 fb"
    by (rule update_acceleration_primary)
  from em fixed have masses: "M1_eff = M_1 (p s) + M_2 (p s)"
    "M2_eff = M_1 (p s) * M_2 (p s) / (M_1 (p s) + M_2 (p s))"
    by (auto simp: eff_masses_def split: if_splits)
  have second: "\<exists>f2 fb. tracer_acc G M2_eff (xDM (p s)) (xBH2 (p s)) (r_soft_sq2 s) (soft_method s)
                           = Inr (map Some f2) \<and>
                         acc_BH_of G M2_eff (xBH1 (p s)) (xBH2 (p s)) = Some fb \<and>
                         acc_DM2 s' = Val f2 \<and>
                         dvdtBH2 (p s') =
                           Val (add_field (background_field s) (xBH2 (p s))
                                  (body_acc (- (M1_eff / M2_eff)) M2_eff (M_DM (p s)) fb f2))"
    if pos: "0 < M_2 (p s)"
    using secondary_acc_Inr [OF sec pos] pos s'
    by (auto simp: store_acceleration_def Let_def)
  show "let M1_eff = M_1 (p s) + M_2 (p s);
             M2_eff = M_1 (p s) * M_2 (p s) / (M_1 (p s) + M_2 (p s))
         in eff_masses (p s) = Inr (M1_eff, M2_eff) \<and>
            (\<exists>f1. tracer_acc G M1_eff (xDM (p s)) (xBH1 (p s)) (r_soft_sq1 s) (soft_method1 s)
                     = Inr (map Some f1) \<and>
                   acc_DM1 s' = Val f1) \<and>
            (0 < M_2 (p s) \<longrightarrow>
               (\<exists>f2 fb. tracer_acc G M2_eff (xDM (p s)) (xBH2 (p s)) (r_soft_sq2 s) (soft_method s)
                           = Inr (map Some f2) \<and>
                         acc_BH_of G M2_eff (xBH1 (p s)) (xBH2 (p s)) = Some fb \<and>
                         acc_DM2 s' = Val f2 \<and>
                         dvdtBH2 (p s') =
                           Val (add_field (background_field s) (xBH2 (p s))
                                  (body_acc (- (M1_eff / M2_eff)) M2_eff (M_DM (p s)) fb f2)))) \<and>
            xBH1 (p s') = xBH1 (p s) \<and> vBH1 (p s') = vBH1 (p s) \<and> \<not> dynamic_BH (p s')"
    using em t1 second fixed s' unfolding Let_def masses
    by (simp add: store_acceleration_frame store_acceleration_result)
qed

theorem fixed_primary_stages_and_masses_witness:
  "\<not> dynamic_BH (p fixed_simulator) \<and>
   xBH1 (xstep (p fixed_simulator) (1 / 2)) = (0, 0, 0) \<and>
   vBH1 (xstep (p fixed_simulator) (1 / 2)) = (0, 0, 0) \<and>
   update_acceleration 1 fixed_simulator = Inr fixed_forced \<and>
   eff_masses (p fixed_simulator) = Inr (5, 4 / 5) \<and>
   acc_DM1 fixed_forced = Val [(5, 0, 0)] \<and>
   acc_DM2 fixed_forced = Val [(1 / 5, 0, 0)] \<and>
   0 < M_2 (p fixed_simulator) \<and>
   xBH1 (p fixed_forced) = (0, 0, 0) \<and> vBH1 (p fixed_forced) = (0, 0, 0) \<and>
   \<not> dynamic_BH (p fixed_forced) \<and>
   vstep (p fixed_forced) (1 / 2) =
     Inr ((p fixed_forced) \<lparr> vBH2 := (- (41 / 16), 1, 0), vDM := [(13 / 5, 0, 1)] \<rparr>) \<and>
   \<not> dynamic_BH (p single_simulator) \<and>
   full_step 1 single_simulator 1 ''PEFRL'' None = Inr single_stepped \<and>
   xBH1 (p single_stepped) = xBH1 (p single_simulator) \<and>
   vBH1 (p single_stepped) = vBH1 (p single_simulator)"
proof -
  have h: "\<not> dynamic_BH (p fixed_simulator)" by (simp add: example_defs)
  have h': "\<not> dynamic_BH (p single_simulator)" by (simp add: example_defs)
  have k: "vstep (p fixed_forced) (1 / 2) =
     Inr ((p fixed_forced) \<lparr> vBH2 := (- (41 / 16), 1, 0), vDM := [(13 / 5, 0, 1)] \<rparr>)"
    by (simp add: example_defs vstep_def drift_def read_attr_def bindE_def vec_defs)
  note T = fixed_primary_stages_and_masses [OF h, of "1 / 2" 1]
  note T' = fixed_primary_stages_and_masses [OF h', of "1 / 2" 1]
  from T have drift:
    "xBH1 (xstep (p fixed_simulator) (1 / 2)) = xBH1 (p fixed_simulator)"
    "vBH1 (xstep (p fixed_simulator) (1 / 2)) = vBH1 (p fixed_simulator)"
    by blast+
  note F = T [THEN conjunct2, THEN conjunct2, THEN conjunct2, THEN conjunct2, rule_format,
      OF update_acceleration_fixed, unfolded Let_def]
  from F have force:
    "eff_masses (p fixed_simulator) =
       Inr (M_1 (p fixed_simulator) + M_2 (p fixed_simulator),
            M_1 (p fixed_simulator) * M_2 (p fixed_simulator) /
              (M_1 (p fixed_simulator) + M_2 (p fixed_simulator)))"
    "xBH1 (p fixed_forced) = xBH1 (p fixed_simulator)"
    "vBH1 (p fixed_forced) = vBH1 (p fixed_simulator)"
    "\<not> dynamic_BH (p fixed_forced)"
    by blast+
  note S = T' [THEN conjunct2, THEN conjunct2, THEN conjunct2, THEN conjunct1, rule_format,
      OF full_step_single]
  from drift force S update_acceleration_fixed full_step_single k h h'
  show ?thesis
    by (simp add: example_defs vzero_def)
qed

subsection \<open>Reaction on the bodies and momentum flux\<close>

text \<open>
  Claim C4: with both bodies dynamic, \<open>M\<^sub>2 > 0\<close> and no background field, a force evaluation
  that completes stores for the primary the acceleration between the bodies minus
  \<open>(1/M\<^sub>1)\<cdot>\<Sum>\<^sub>i m\<^sub>i\<cdot>a\<^sub>i\<close> over the tracer accelerations from the primary, for the secondary
  \<open>-(M\<^sub>1/M\<^sub>2)\<close> times the acceleration between the bodies minus \<open>(1/M\<^sub>2)\<cdot>\<Sum>\<^sub>i m\<^sub>i\<cdot>a\<^sub>i\<close> over
  those from the secondary, and for every tracer the sum of its two accelerations; the total
  \<open>M\<^sub>1\<cdot>dvdtBH1 + M\<^sub>2\<cdot>dvdtBH2 + \<Sum>\<^sub>i m\<^sub>i\<cdot>dvdtDM\<^sub>i\<close> is zero (over the reals).
\<close>

theorem reaction_and_momentum_flux:
  assumes dyn: "dynamic_BH (p s)" and pos: "0 < M_2 (p s)"
    and nobf: "background_field s = None"
    and ok: "update_acceleration G s = Inr s'"
  shows "\<exists>f1 f2 fb a1 a2.
      tracer_acc G (M_1 (p s)) (xDM (p s)) (xBH1 (p s)) (r_soft_sq1 s) (soft_method1 s) = Inr (map Some f1) \<and>
      tracer_acc G (M_2 (p s)) (xDM (p s)) (xBH2 (p s)) (r_soft_sq2 s) (soft_method s) = Inr (map Some f2) \<and>
      acc_BH_of G (M_2 (p s)) (xBH1 (p s)) (xBH2 (p s)) = Some fb \<and>
      a1 = vsub fb (smul (1 / M_1 (p s)) (weighted_sum (M_DM (p s)) f1)) \<and>
      a2 = vsub (smul (- (M_1 (p s) / M_2 (p s))) fb)
                (smul (1 / M_2 (p s)) (weighted_sum (M_DM (p s)) f2)) \<and>
      dvdtBH1 (p s') = Val a1 \<and> dvdtBH2 (p s') = Val a2 \<and>
      dvdtDM (p s') = Val (map2 vadd f1 f2) \<and>
      momentum_flux (M_1 (p s)) (M_2 (p s)) (M_DM (p s)) a1 a2 (map2 vadd f1 f2) = vzero"
proof -
  from ok obtain M1_eff M2_eff f1 f2 fb r1m r2m where
    em: "eff_masses (p s) = Inr (M1_eff, M2_eff)"
    and t1: "tracer_acc G M1_eff (xDM (p s)) (xBH1 (p s)) (r_soft_sq1 s) (soft_method1 s) = Inr (map Some f1)"
    and sec: "secondary_acc G s M2_eff (length f1) = Inr (r2m, map Some f2, Some fb)"
    and nz: "dynamic_BH (p s) \<longrightarrow> M1_eff \<noteq> 0"
    and s': "s' = store_acceleration s M1_eff M2_eff r1m r2m f1 f2 fb"
    by (rule update_acceleration_primary)
  from em dyn have masses: "M1_eff = M_1 (p s)" "M2_eff = M_2 (p s)"
    by (simp_all add: eff_masses_def)
  from nz dyn masses have m1: "M_1 (p s) \<noteq> 0" by simp
  from pos have m2: "M_2 (p s) \<noteq> 0" by simp
  note t2 = secondary_acc_Inr [OF sec pos]
  from t1 have l1: "length f1 = length (xDM (p s))" by (auto dest: tracer_acc_length)
  from t2(1) have l2: "length f2 = length (xDM (p s))" by (auto dest: tracer_acc_length)
  let ?a1 = "vsub fb (smul (1 / M_1 (p s)) (weighted_sum (M_DM (p s)) f1))"
  let ?a2 = "vsub (smul (- (M_1 (p s) / M_2 (p s))) fb)
                (smul (1 / M_2 (p s)) (weighted_sum (M_DM (p s)) f2))"
  have smul1: "smul 1 fb = fb" by (cases fb) (simp add: smul_def)
  have d1: "dvdtBH1 (p s') = Val ?a1"
    using s' dyn nobf masses by (simp add: store_acceleration_def Let_def add_field_def body_acc_def smul1)
  have d2: "dvdtBH2 (p s') = Val ?a2"
    using s' pos nobf masses by (simp add: store_acceleration_def Let_def add_field_def body_acc_def)
  have "map2 (add_field None) (xDM (p s)) (map2 vadd f1 f2) = map2 vadd f1 f2"
    using l1 l2 map2_snd_id [of "xDM (p s)" "map2 vadd f1 f2"]
    by (simp add: add_field_def [abs_def])
  then have d3: "dvdtDM (p s') = Val (map2 vadd f1 f2)"
    using s' nobf by (simp add: store_acceleration_def Let_def)
  have flux: "momentum_flux (M_1 (p s)) (M_2 (p s)) (M_DM (p s)) ?a1 ?a2 (map2 vadd f1 f2) = vzero"
    unfolding momentum_flux_def
    using weighted_sum_add [of f1 f2 "M_DM (p s)"] l1 l2 momentum_balance [OF m1 m2]
    by simp
  from t1 t2 d1 d2 d3 flux show ?thesis unfolding masses by blast
qed

theorem reaction_and_momentum_flux_witness:
  "dynamic_BH (p example_simulator) \<and> 0 < M_2 (p example_simulator) \<and>
   background_field example_simulator = None \<and>
   update_acceleration 1 example_simulator = Inr example_forced \<and>
   dvdtBH1 (p example_forced) = Val (1 / 2, 0, 0) \<and>
   dvdtBH2 (p example_forced) = Val (- (33 / 8), 0, 0) \<and>
   dvdtDM (p example_forced) = Val [(17 / 4, 0, 0)] \<and>
   momentum_flux 4 1 [1 / 2] (1 / 2, 0, 0) (- (33 / 8), 0, 0) [(17 / 4, 0, 0)] = vzero"
proof -
  have h1: "dynamic_BH (p example_simulator)" by (simp add: example_defs)
  have h2: "0 < M_2 (p example_simulator)" by (simp add: example_defs)
  have h3: "background_field example_simulator = None" by (simp add: example_defs)
  from reaction_and_momentum_flux [OF h1 h2 h3 update_acceleration_example]
  obtain f1 f2 fb a1 a2 where
    "dvdtBH1 (p example_forced) = Val a1" "dvdtBH2 (p example_forced) = Val a2"
    "dvdtDM (p example_forced) = Val (map2 vadd f1 f2)"
    "momentum_flux (M_1 (p example_simulator)) (M_2 (p example_simulator))
       (M_DM (p example_simulator)) a1 a2 (map2 vadd f1 f2) = vzero"
    by blast
  then have "momentum_flux 4 1 [1 / 2] (1 / 2, 0, 0) (- (33 / 8), 0, 0) [(17 / 4, 0, 0)] = vzero"
    by (simp add: example_defs)
  with h1 h2 h3 update_acceleration_example show ?thesis
    by (simp add: example_defs)
qed

subsection \<open>The adaptive step controller\<close>

text \<open>
  The count of the controller. Let the simulator hold tracers, let \<open>s1\<close> be the state once
  \<^verbatim>\<open>r2_min\<close> is available (after the force evaluation that \<^verbatim>\<open>adaptive_step\<close> runs when
  \<^verbatim>\<open>r2_min\<close> is \<^verbatim>\<open>None\<close>), and let \<open>dt_opt = eta\<cdot>2\<pi>\<cdot>\<surd>(r2_min\<^sup>3 / (G\<cdot>M\<^sub>2))\<close> for positive
  \<open>r2_min\<close>, \<open>G\<cdot>M\<^sub>2\<close> and \<open>eta\<close>, and \<open>N_sub_max \<ge> 1\<close>. If \<open>dt_opt < dt\<close>, the loop of the
  controller calls \<^verbatim>\<open>full_step\<close> with the size \<open>dt/N_sub\<close>, for
  \<open>N_sub = min(\<lceil>dt/dt_opt\<rceil>, N_sub_max)\<close> and \<open>1 \<le> N_sub \<le> N_sub_max\<close>, until a call raises;
  if \<open>dt_opt \<ge> dt\<close>, it calls \<^verbatim>\<open>full_step\<close> once with the size \<open>dt\<close>. What these calls do
  is the matter of \<^verbatim>\<open>full_step\<close>.
\<close>

lemma adaptive_step_count:
  assumes tracers: "N_DM (p s) \<noteq> 0"
    and ready: "(case r2_min s of PyNone \<Rightarrow> update_acceleration G s | _ \<Rightarrow> Inr s) = Inr s1"
    and r2: "r2_min s1 = Val r"
    and pos: "0 < r" "0 < G * M_2 (p s1)" "0 < eta"
    and cap: "1 \<le> N_sub_max"
    and dt_opt: "dt_opt = eta * (2 * pi * sqrt (r ^ 3 / (G * M_2 (p s1))))"
  shows "(dt_opt < dt \<longrightarrow>
            (let N_sub = min \<lceil>dt / dt_opt\<rceil> N_sub_max
             in adaptive_step G s dt scheme eta N_sub_max =
                  sub_steps (nat N_sub) (\<lambda>t. full_step G t (dt / of_int N_sub) scheme None) s1 \<and>
                1 \<le> N_sub \<and> N_sub \<le> N_sub_max)) \<and>
         (dt \<le> dt_opt \<longrightarrow>
            adaptive_step G s dt scheme eta N_sub_max = full_step G s1 dt scheme None)"
proof -
  from r2 ready have pre: "(case r2_min s of Unset \<Rightarrow> Inl AttributeError
               | PyNone \<Rightarrow> update_acceleration G s | Val r \<Rightarrow> Inr s) = Inr s1"
    by (cases "r2_min s") auto
  note opt = calc_dt_opt_Some [OF pos, folded dt_opt]
  have unfold: "adaptive_step G s dt scheme eta N_sub_max =
      (if dt_opt \<ge> dt then full_step G s1 dt scheme None
       else (let N_sub = \<lceil>dt / dt_opt\<rceil>;
                 N_sub = (if N_sub > N_sub_max then N_sub_max else N_sub)
             in if N_sub = 0 then Inl ZeroDivisionError
                else for_range 0 N_sub
                       (\<lambda>s'. full_step G s' (dt / of_int N_sub) scheme None) s1))"
    using tracers pre r2 opt by (simp add: adaptive_step_def bindE_def read_attr_def)
  have small: "adaptive_step G s dt scheme eta N_sub_max =
                  sub_steps (nat (min \<lceil>dt / dt_opt\<rceil> N_sub_max))
                    (\<lambda>t. full_step G t (dt / of_int (min \<lceil>dt / dt_opt\<rceil> N_sub_max)) scheme None) s1 \<and>
                1 \<le> min \<lceil>dt / dt_opt\<rceil> N_sub_max \<and> min \<lceil>dt / dt_opt\<rceil> N_sub_max \<le> N_sub_max"
    if lt: "dt_opt < dt"
  proof -
    define N where "N = min \<lceil>dt / dt_opt\<rceil> N_sub_max"
    from lt opt(2) have "1 < dt / dt_opt" by simp
    then have "1 \<le> \<lceil>dt / dt_opt\<rceil>" by linarith
    with cap have one: "1 \<le> N" "N \<le> N_sub_max" "N \<noteq> 0" unfolding N_def by linarith+
    have m: "(if \<lceil>dt / dt_opt\<rceil> > N_sub_max then N_sub_max else \<lceil>dt / dt_opt\<rceil>) = N"
      by (simp add: N_def min_def)
    from lt have "\<not> dt \<le> dt_opt" by simp
    with one have "adaptive_step G s dt scheme eta N_sub_max =
        sub_steps (nat N) (\<lambda>t. full_step G t (dt / of_int N) scheme None) s1"
      unfolding unfold Let_def m by (simp add: for_range_sub_steps)
    with one show ?thesis unfolding N_def by blast
  qed
  from small unfold show ?thesis by (simp add: Let_def)
qed

lemma full_step_DKD: "full_step G s dt ''DKD'' inds = Inl TypeError"
  by (simp add: full_step_def call_xstep_def bindE_def)

lemma full_step_KDK:
  "full_step G s dt ''KDK'' inds =
     (case update_acceleration G s of Inl e \<Rightarrow> Inl e | Inr s' \<Rightarrow> Inl TypeError)"
  by (simp add: full_step_def call_vstep_def bindE_def split: sum.splits)

lemma sub_steps_first_raises:
  "0 < n \<Longrightarrow> body s = Inl e \<Longrightarrow> sub_steps n body s = Inl e"
  by (cases n) (simp_all add: bindE_def)

text \<open>
  Claim C3 says that, with tracers and \<open>dt_opt < dt\<close>, the controller executes exactly
  \<open>N_sub = min(\<lceil>dt/dt_opt\<rceil>, N_sub_max)\<close> sub-steps, each a complete multi-stage step of
  size \<open>dt/N_sub\<close>. In the source the controller computes this \<open>N_sub \<ge> 1\<close> and calls
  \<^verbatim>\<open>self.full_step(dt_sub, method)\<close>; with the scheme "DKD" the first of these calls raises
  \<^verbatim>\<open>TypeError\<close> at its first drift (the extra argument \<^verbatim>\<open>inds\<close> of claim C1), and with "KDK"
  it raises at its first kick, unless its force evaluation has raised already. So for every
  such state, \<open>dt\<close>, \<open>eta\<close> and \<open>N_sub_max\<close> the controller ends with an exception and
  no sub-step is completed.
\<close>

theorem adaptive_step_DKD_KDK_raise:
  assumes tracers: "N_DM (p s) \<noteq> 0"
    and ready: "(case r2_min s of PyNone \<Rightarrow> update_acceleration G s | _ \<Rightarrow> Inr s) = Inr s1"
    and r2: "r2_min s1 = Val r"
    and pos: "0 < r" "0 < G * M_2 (p s1)" "0 < eta"
    and cap: "1 \<le> N_sub_max"
    and dt_opt: "dt_opt = eta * (2 * pi * sqrt (r ^ 3 / (G * M_2 (p s1))))"
    and lt: "dt_opt < dt"
  shows "1 \<le> min \<lceil>dt / dt_opt\<rceil> N_sub_max \<and>
         adaptive_step G s dt ''DKD'' eta N_sub_max = Inl TypeError \<and>
         adaptive_step G s dt ''KDK'' eta N_sub_max =
           (case update_acceleration G s1 of Inl e \<Rightarrow> Inl e | Inr s' \<Rightarrow> Inl TypeError)"
proof -
  define N where "N = min \<lceil>dt / dt_opt\<rceil> N_sub_max"
  note count = adaptive_step_count [OF tracers ready r2 pos cap dt_opt, where dt = dt, THEN conjunct1,
      rule_format, OF lt, unfolded Let_def, folded N_def]
  from count [where scheme = "''DKD''"] have one: "1 \<le> N" and n: "0 < nat N" by simp_all
  have dkd: "adaptive_step G s dt ''DKD'' eta N_sub_max = Inl TypeError"
    using count [where scheme = "''DKD''"]
      sub_steps_first_raises [OF n, where body = "\<lambda>t. full_step G t (dt / of_int N) ''DKD'' None"
        and s = s1 and e = TypeError]
    by (simp add: full_step_DKD)
  have kdk: "adaptive_step G s dt ''KDK'' eta N_sub_max =
      (case update_acceleration G s1 of Inl e \<Rightarrow> Inl e | Inr s' \<Rightarrow> Inl TypeError)"
  proof (cases "update_acceleration G s1")
    case (Inl e)
    hence "full_step G s1 (dt / of_int N) ''KDK'' None = Inl e"
      by (simp add: full_step_KDK)
    from sub_steps_first_raises [where body = "\<lambda>t. full_step G t (dt / of_int N) ''KDK'' None"
        and s = s1, OF n this] count [where scheme = "''KDK''"] Inl
    show ?thesis by simp
  next
    case (Inr s')
    hence "full_step G s1 (dt / of_int N) ''KDK'' None = Inl TypeError"
      by (simp add: full_step_KDK)
    from sub_steps_first_raises [where body = "\<lambda>t. full_step G t (dt / of_int N) ''KDK'' None"
        and s = s1, OF n this] count [where scheme = "''KDK''"] Inr
    show ?thesis by simp
  qed
  from one dkd kdk show ?thesis unfolding N_def by (intro conjI)
qed

theorem adaptive_step_DKD_KDK_raise_witness:
  "N_DM (p example_forced) \<noteq> 0 \<and> r2_min example_forced = Val 2 \<and>
   (0::real) < 2 \<and> (0::real) < 2 * M_2 (p example_forced) \<and> (0::real) < 1 \<and> (1::int) \<le> 5 \<and>
   4 * pi = 1 * (2 * pi * sqrt (2 ^ 3 / (2 * M_2 (p example_forced)))) \<and>
   4 * pi < 100 \<and>
   adaptive_step 2 example_forced 100 ''DKD'' 1 5 = Inl TypeError \<and>
   \<not> isl (update_acceleration 2 example_forced) \<and>
   adaptive_step 2 example_forced 100 ''KDK'' 1 5 = Inl TypeError"
proof -
  have h1: "N_DM (p example_forced) \<noteq> 0" by (simp add: example_defs)
  have h2: "(case r2_min example_forced of PyNone \<Rightarrow> update_acceleration 2 example_forced
             | _ \<Rightarrow> Inr example_forced) = Inr example_forced"
    by (simp add: example_defs)
  have h3: "r2_min example_forced = Val 2" by (simp add: example_defs)
  have h4: "(0::real) < 2" "(0::real) < 2 * M_2 (p example_forced)" "(0::real) < 1"
    by (simp_all add: example_defs)
  have h5: "(1::int) \<le> 5" by simp
  have h6: "4 * pi = 1 * (2 * pi * sqrt (2 ^ 3 / (2 * M_2 (p example_forced))))"
    by (simp add: example_defs)
  have force: "\<not> isl (update_acceleration 2 example_forced)"
    by (simp add: example_defs force_defs kernel_defs vec_defs Let_def)
  note T = adaptive_step_DKD_KDK_raise [OF h1 h2 h3 h4 h5 h6 pi_bound(1)]
  from T force have "adaptive_step 2 example_forced 100 ''DKD'' 1 5 = Inl TypeError"
    "adaptive_step 2 example_forced 100 ''KDK'' 1 5 = Inl TypeError"
    by (auto split: sum.splits)
  with h1 h3 h4 h5 h6 pi_bound(1) force show ?thesis by simp
qed

subsection \<open>An unknown kernel name\<close>

text \<open>
  Claim C7 says that constructing the simulator with a kernel name outside "plummer",
  "plummer2", "uniform", "truncate", "empty_shell" fails. \<^verbatim>\<open>__init__\<close> stores the name
  without looking at it: the construction with the name "bogus" returns a simulator.
\<close>

theorem unknown_kernel_construction_counterexample:
  "\<not> isl (simulator_init example_particles 0 (- 1) ''bogus'')"
  by (simp add: simulator_init_def)

text \<open>
  Claim C7, amended: the name is checked by \<^verbatim>\<open>calc_acc\<close>, which accepts six names (the five
  above and "uniform_old"). For a simulator as constructed, with a secondary of positive
  mass, any other name makes the first force evaluation raise
  \<^verbatim>\<open>ValueError("Invalid softening method:" + name)\<close>; so a step with scheme "FR" or "PEFRL"
  raises it at its first force evaluation, after its first drift.
\<close>

theorem unknown_kernel_raises_at_first_force_evaluation:
  assumes init: "simulator_init q r2 r1 sm = Inr s"
    and bad: "sm \<notin> {''plummer'', ''plummer2'', ''uniform_old'', ''uniform'', ''truncate'', ''empty_shell''}"
    and m2: "0 < M_2 q" and m1: "0 \<le> M_1 q"
    and len: "length (xDM q) = N_DM q" "length (vDM q) = N_DM q"
  shows "update_acceleration G s = Inl (ValueError (''Invalid softening method:'' @ sm)) \<and>
         full_step G s dt ''FR'' inds = Inl (ValueError (''Invalid softening method:'' @ sm)) \<and>
         full_step G s dt ''PEFRL'' inds = Inl (ValueError (''Invalid softening method:'' @ sm))"
proof -
  from init have s: "p s = q" "soft_method1 s = ''uniform''" "soft_method s = sm"
    by (auto simp: simulator_init_def)
  have force: "update_acceleration G (s \<lparr> p := xstep (p s) h \<rparr>) =
      Inl (ValueError (''Invalid softening method:'' @ sm))" for h
    using update_acceleration_unknown_kernel [of "s \<lparr> p := xstep (p s) h \<rparr>" G] s bad m1 m2 len
    by (simp add: xstep_def)
  have "update_acceleration G s = Inl (ValueError (''Invalid softening method:'' @ sm))"
    using update_acceleration_unknown_kernel [of s G] s bad m1 m2 len by simp
  with force show ?thesis
    by (simp add: full_step_def call_xstep_def bindE_def)
qed

theorem unknown_kernel_raises_at_first_force_evaluation_witness:
  "simulator_init example_particles 0 (- 1) ''bogus'' =
     Inr (example_simulator \<lparr> soft_method := ''bogus'' \<rparr>) \<and>
   ''bogus'' \<notin> {''plummer'', ''plummer2'', ''uniform_old'', ''uniform'', ''truncate'', ''empty_shell''} \<and>
   0 < M_2 example_particles \<and> 0 \<le> M_1 example_particles \<and>
   length (xDM example_particles) = N_DM example_particles \<and>
   length (vDM example_particles) = N_DM example_particles \<and>
   update_acceleration 1 (example_simulator \<lparr> soft_method := ''bogus'' \<rparr>) =
     Inl (ValueError ''Invalid softening method:bogus'') \<and>
   full_step 1 (example_simulator \<lparr> soft_method := ''bogus'' \<rparr>) (1 / 10) ''PEFRL'' None =
     Inl (ValueError ''Invalid softening method:bogus'')"
proof -
  have h1: "simulator_init example_particles 0 (- 1) ''bogus'' =
     Inr (example_simulator \<lparr> soft_method := ''bogus'' \<rparr>)"
    by (simp add: simulator_init_def example_defs)
  have h2: "''bogus'' \<notin> {''plummer'', ''plummer2'', ''uniform_old'', ''uniform'', ''truncate'', ''empty_shell''}"
    by simp
  have h3: "0 < M_2 example_particles" "0 \<le> M_1 example_particles"
    "length (xDM example_particles) = N_DM example_particles"
    "length (vDM example_particles) = N_DM example_particles"
    by (simp_all add: example_defs)
  from unknown_kernel_raises_at_first_force_evaluation [OF h1 h2 h3, of 1 "1 / 10" None] h1 h2 h3
  show ?thesis by simp
qed

subsection \<open>The kernel of the primary\<close>

text \<open>
  Claim C10: for a simulator built by \<^verbatim>\<open>__init__\<close> with any \<^verbatim>\<open>soft_method\<close>, in every state
  it reaches through force evaluations, full steps and adaptive steps, the kernel for the
  primary is "uniform" and the kernel for the secondary is the configured one: a force
  evaluation that completes stores in \<^verbatim>\<open>acc_DM1\<close> the tracer accelerations from the primary
  computed with "uniform", and, when \<open>M\<^sub>2 > 0\<close>, in \<^verbatim>\<open>acc_DM2\<close> those from the secondary
  computed with \<^verbatim>\<open>soft_method\<close>.
\<close>

theorem primary_kernel_always_uniform:
  assumes init: "simulator_init q r2 r1 sm = Inr s0"
    and reach: "reachable G s0 s"
    and ok: "update_acceleration G s = Inr s'"
  shows "soft_method1 s = ''uniform'' \<and> soft_method s = sm \<and>
     (\<exists>M1_eff M2_eff f1.
         eff_masses (p s) = Inr (M1_eff, M2_eff) \<and>
         tracer_acc G M1_eff (xDM (p s)) (xBH1 (p s)) (r_soft_sq1 s) ''uniform'' = Inr (map Some f1) \<and>
         acc_DM1 s' = Val f1 \<and>
         (0 < M_2 (p s) \<longrightarrow>
            (\<exists>f2. tracer_acc G M2_eff (xDM (p s)) (xBH2 (p s)) (r_soft_sq2 s) sm = Inr (map Some f2) \<and>
                  acc_DM2 s' = Val f2)))"
proof -
  from init have "soft_method1 s0 = ''uniform''" "soft_method s0 = sm"
    by (auto simp: simulator_init_def)
  with reachable_config [OF reach] have cfg: "soft_method1 s = ''uniform''" "soft_method s = sm"
    by simp_all
  from ok obtain M1_eff M2_eff f1 f2 fb r1m r2m where
    em: "eff_masses (p s) = Inr (M1_eff, M2_eff)"
    and t1: "tracer_acc G M1_eff (xDM (p s)) (xBH1 (p s)) (r_soft_sq1 s) (soft_method1 s) = Inr (map Some f1)"
    and sec: "secondary_acc G s M2_eff (length f1) = Inr (r2m, map Some f2, Some fb)"
    and s': "s' = store_acceleration s M1_eff M2_eff r1m r2m f1 f2 fb"
    by (rule update_acceleration_primary)
  have "\<exists>f2. tracer_acc G M2_eff (xDM (p s)) (xBH2 (p s)) (r_soft_sq2 s) sm = Inr (map Some f2) \<and>
                  acc_DM2 s' = Val f2" if "0 < M_2 (p s)"
    using secondary_acc_Inr(1) [OF sec that] cfg s' by (simp add: store_acceleration_result)
  with cfg em t1 s' show ?thesis
    by (auto simp: store_acceleration_result)
qed

theorem primary_kernel_always_uniform_witness:
  "simulator_init example_particles 0 (- 1) ''empty_shell'' = Inr example_simulator \<and>
   reachable 1 example_simulator example_forced \<and>
   update_acceleration 1 example_forced = Inr example_forced \<and>
   soft_method1 example_forced = ''uniform'' \<and> soft_method example_forced = ''empty_shell'' \<and>
   0 < M_2 (p example_forced) \<and>
   acc_DM1 example_forced = Val [(4, 0, 0)] \<and> acc_DM2 example_forced = Val [(1 / 4, 0, 0)]"
proof -
  have h1: "simulator_init example_particles 0 (- 1) ''empty_shell'' = Inr example_simulator"
    by (simp add: simulator_init_def example_defs)
  have h2: "reachable 1 example_simulator example_forced"
    by (rule reachable.force [OF reachable.start update_acceleration_example])
  from primary_kernel_always_uniform [OF h1 h2 update_acceleration_forced] h1 h2
    update_acceleration_forced
  show ?thesis by (simp add: example_defs)
qed

subsection \<open>The caller's particle set\<close>

lemma get_below:
  assumes "same_below n st st'" "\<forall>a. n \<le> a \<longrightarrow> cells st a = None"
  shows "get_vec st a = Some v \<Longrightarrow> get_vec st' a = Some v"
    and "get_rows st a = Some rs \<Longrightarrow> get_rows st' a = Some rs"
    and "get_weights st a = Some ms \<Longrightarrow> get_weights st' a = Some ms"
    and "get_object st a = Some ob \<Longrightarrow> get_object st' a = Some ob"
proof -
  have *: "cells st' a = cells st a" if "cells st a \<noteq> None"
  proof -
    from that assms(2) have "a < n" by (metis not_le)
    with assms(1) show ?thesis by (simp add: same_below_def)
  qed
  show "get_vec st a = Some v \<Longrightarrow> get_vec st' a = Some v"
    using * by (auto simp: get_vec_def split: option.splits cell.splits)
  show "get_rows st a = Some rs \<Longrightarrow> get_rows st' a = Some rs"
    using * by (auto simp: get_rows_def split: option.splits cell.splits)
  show "get_weights st a = Some ms \<Longrightarrow> get_weights st' a = Some ms"
    using * by (auto simp: get_weights_def split: option.splits cell.splits)
  show "get_object st a = Some ob \<Longrightarrow> get_object st' a = Some ob"
    using * by (auto simp: get_object_def split: option.splits cell.splits)
qed

lemma load_below:
  assumes same: "same_below (top st) st st'" and ok: "store_ok st" and l: "load st a = Some q"
  shows "load st' a = Some q"
proof -
  note g = get_below [OF same ok [unfolded store_ok_def]]
  from l obtain ob ms x1 v1 x2 v2 xs vs where
    parts: "get_object st a = Some ob" "get_weights st (o_M_DM ob) = Some ms"
      "get_vec st (o_xBH1 ob) = Some x1" "get_vec st (o_vBH1 ob) = Some v1"
      "get_vec st (o_xBH2 ob) = Some x2" "get_vec st (o_vBH2 ob) = Some v2"
      "get_rows st (o_xDM ob) = Some xs" "get_rows st (o_vDM ob) = Some vs"
    and q: "q = \<lparr> M_1 = o_M_1 ob, M_2 = o_M_2 ob, M_DM = ms, N_DM = o_N_DM ob,
            xBH1 = x1, vBH1 = v1, xBH2 = x2, vBH2 = v2, xDM = xs, vDM = vs,
            dvdtBH1 = o_dvdtBH1 ob, dvdtBH2 = o_dvdtBH2 ob, dvdtDM = o_dvdtDM ob,
            dynamic_BH = o_dynamic_BH ob \<rparr>"
    by (auto simp: load_def split: bind_splits)
  from parts have "get_object st' a = Some ob" "get_weights st' (o_M_DM ob) = Some ms"
      "get_vec st' (o_xBH1 ob) = Some x1" "get_vec st' (o_vBH1 ob) = Some v1"
      "get_vec st' (o_xBH2 ob) = Some x2" "get_vec st' (o_vBH2 ob) = Some v2"
      "get_rows st' (o_xDM ob) = Some xs" "get_rows st' (o_vDM ob) = Some vs"
    by (simp_all add: g)
  with q show ?thesis by (simp add: load_def)
qed

lemma same_below_refl: "same_below n st st"
  by (simp add: same_below_def)

lemma same_below_trans: "same_below n st st' \<Longrightarrow> same_below n st' st'' \<Longrightarrow> same_below n st st''"
  by (simp add: same_below_def)

lemma copy_array_fresh:
  assumes "copy_array a st = Some (b, st')"
  shows "b = top st" "top st' = Suc (top st)" "\<exists>c. cells st' = (cells st)(top st \<mapsto> c)"
  using assms by (auto simp: copy_array_def alloc_def split: option.splits cell.splits)

lemma copy_arrays_fresh:
  assumes "copy_arrays as st = Some (bs, st')"
  shows "same_below (top st) st st' \<and> top st \<le> top st' \<and> list_all (\<lambda>b. top st \<le> b) bs"
  using assms
proof (induction as arbitrary: st bs)
  case Nil
  then show ?case by (simp add: same_below_refl)
next
  case (Cons a as)
  from Cons.prems obtain b st1 bs' where
    c: "copy_array a st = Some (b, st1)" and r: "copy_arrays as st1 = Some (bs', st')"
    and bs: "bs = b # bs'"
    by (auto split: option.splits)
  note f = copy_array_fresh [OF c]
  from f have s1: "same_below (top st) st st1" by (auto simp: same_below_def)
  from Cons.IH [OF r] f have "same_below (top st) st1 st'" "top st \<le> top st'"
    "list_all (\<lambda>b. top st \<le> b) bs'"
    by (auto simp: same_below_def list_all_iff)
  with s1 f bs show ?case by (auto intro: same_below_trans)
qed

lemma deepcopy_fresh:
  assumes dc: "deepcopy a st = Some (a', st')"
  shows "same_below (top st) st st'" and "owns_above (top st) st' a'" and "top st \<le> a'"
proof -
  from dc obtain ob ms x1 v1 x2 v2 xs vs st7 where
    c: "copy_arrays [o_M_DM ob, o_xBH1 ob, o_vBH1 ob, o_xBH2 ob, o_vBH2 ob, o_xDM ob, o_vDM ob] st
          = Some ([ms, x1, v1, x2, v2, xs, vs], st7)"
    and fin: "(a', st') = alloc (Object (ob \<lparr> o_M_DM := ms, o_xBH1 := x1, o_vBH1 := v1, o_xBH2 := x2,
                               o_vBH2 := v2, o_xDM := xs, o_vDM := vs \<rparr>)) st7"
    unfolding deepcopy_def
    by (auto split: option.splits list.splits prod.splits simp del: copy_arrays.simps)
  from copy_arrays_fresh [OF c] have same7: "same_below (top st) st st7" and top7: "top st \<le> top st7"
    and above: "top st \<le> x1" "top st \<le> v1" "top st \<le> x2" "top st \<le> v2" "top st \<le> xs"
      "top st \<le> vs"
    by simp_all
  from fin have a': "a' = top st7"
    and st': "cells st' = (cells st7)(top st7 \<mapsto> Object (ob \<lparr> o_M_DM := ms, o_xBH1 := x1,
        o_vBH1 := v1, o_xBH2 := x2, o_vBH2 := v2, o_xDM := xs, o_vDM := vs \<rparr>))"
    by (simp_all add: alloc_def)
  from same7 top7 show "same_below (top st) st st'"
    unfolding same_below_def st' by simp
  from above top7 show "owns_above (top st) st' a'"
    unfolding owns_above_def get_object_def st' a' by simp
  from top7 show "top st \<le> a'" using a' by simp
qed

lemma write_back_owned:
  assumes own: "owns_above n st a" and wb: "write_back a q st = Some st'"
  shows "same_below n st st'" and "owns_above n st' a"
proof -
  from wb obtain ob where ob: "get_object st a = Some ob"
    and st': "st' = st \<lparr> cells := (cells st)
             (o_xBH1 ob \<mapsto> Vec (xBH1 q), o_vBH1 ob \<mapsto> Vec (vBH1 q),
              o_xBH2 ob \<mapsto> Vec (xBH2 q), o_vBH2 ob \<mapsto> Vec (vBH2 q),
              o_xDM ob \<mapsto> Rows (xDM q), o_vDM ob \<mapsto> Rows (vDM q),
              a \<mapsto> Object (ob \<lparr> o_dvdtBH1 := dvdtBH1 q, o_dvdtBH2 := dvdtBH2 q,
                                  o_dvdtDM := dvdtDM q \<rparr>)) \<rparr>"
    by (auto simp: write_back_def split: bind_splits)
  from own ob have above: "n \<le> a" "n \<le> o_xBH1 ob" "n \<le> o_vBH1 ob" "n \<le> o_xBH2 ob"
    "n \<le> o_vBH2 ob" "n \<le> o_xDM ob" "n \<le> o_vDM ob"
    by (simp_all add: owns_above_def)
  then show "same_below n st st'" unfolding same_below_def st' by auto
  from above show "owns_above n st' a" unfolding owns_above_def get_object_def st' by simp
qed

lemma stored_call_owned:
  assumes "stored_call f (st, a, sim) = Inr (st', a', sim')" "owns_above n st a"
  shows "same_below n st st'" and "owns_above n st' a'" and "a' = a"
proof -
  from assms(1) obtain q where "write_back a q st = Some st'" and a: "a' = a"
    by (auto simp: stored_call_def bindE_Inr split: option.splits)
  from write_back_owned [OF assms(2) this(1)] a
  show "same_below n st st'" and "owns_above n st' a'" and "a' = a" by simp_all
qed

lemma stored_call_invariant:
  assumes call: "stored_call f c = Inr c'"
    and inv: "same_below n st0 (fst c) \<and> owns_above n (fst c) (fst (snd c)) \<and> fst (snd c) = a0"
  shows "same_below n st0 (fst c') \<and> owns_above n (fst c') (fst (snd c')) \<and> fst (snd c') = a0"
proof -
  obtain st a sim st' a' sim' where c: "c = (st, a, sim)" "c' = (st', a', sim')"
    by (cases c, cases c') auto
  from inv c have own: "owns_above n st a" and same: "same_below n st0 st" and ad: "a = a0"
    by auto
  from stored_call_owned [OF call [unfolded c] own] same ad c
  show ?thesis by (auto intro: same_below_trans)
qed

lemma stored_run_owned:
  assumes "stored_run G c0 c" "owns_above n (fst c0) (fst (snd c0))"
  shows "same_below n (fst c0) (fst c) \<and> owns_above n (fst c) (fst (snd c)) \<and>
         fst (snd c) = fst (snd c0)"
  using assms
proof (induction rule: stored_run.induct)
  case run_start
  then show ?case by (simp add: same_below_refl)
next
  case (run_force c c')
  from stored_call_invariant [OF run_force.hyps(2) run_force.IH [OF run_force.prems]]
  show ?case .
next
  case (run_step c dt scheme inds c')
  from stored_call_invariant [OF run_step.hyps(2) run_step.IH [OF run_step.prems]]
  show ?case .
next
  case (run_adaptive c dt scheme eta n_max c')
  from stored_call_invariant [OF run_adaptive.hyps(2) run_adaptive.IH [OF run_adaptive.prems]]
  show ?case .
qed

text \<open>
  Claim C9: let the caller's particle set be an object in a store with no cell above its
  allocation pointer, and let a simulator be constructed from it. After every sequence of
  calls of \<^verbatim>\<open>update_acceleration\<close>, \<^verbatim>\<open>full_step\<close> and \<^verbatim>\<open>adaptive_step\<close> that return, the
  caller's object still holds the particle set it held before the construction (masses,
  positions, velocities, accelerations), every cell that existed before the construction is
  unchanged, and the simulator works on an object of its own.
\<close>

theorem deep_copy_protects_original:
  assumes ok: "store_ok st"
    and orig: "load st a = Some q"
    and init: "stored_init st a soft_sq2 soft_sq1 soft = Inr c0"
    and run: "stored_run G c0 (st', a', sim')"
  shows "load st' a = Some q \<and> same_below (top st) st st' \<and> a' \<noteq> a"
proof -
  from init obtain a0 st0 sim0 where dc: "deepcopy a st = Some (a0, st0)"
    and c0: "c0 = (st0, a0, sim0)"
    by (auto simp: stored_init_def bindE_Inr split: option.splits)
  note fresh = deepcopy_fresh [OF dc]
  from stored_run_owned [OF run, of "top st"] c0 fresh(2)
  have "same_below (top st) st0 st'" "a' = a0" by simp_all
  with fresh(1) have same: "same_below (top st) st st'" by (blast intro: same_below_trans)
  from orig have "cells st a \<noteq> None" by (auto simp: load_def get_object_def split: bind_splits option.splits)
  with ok have "a < top st" unfolding store_ok_def by (metis not_le)
  with fresh(3) \<open>a' = a0\<close> have "a' \<noteq> a" by simp
  with load_below [OF same ok orig] same show ?thesis by simp
qed

lemmas store_defs = load_def get_object_def get_vec_def get_rows_def get_weights_def
  deepcopy_def copy_array_def alloc_def write_back_def stored_init_def stored_call_def
  single_object_def single_store_def single_copied_def single_moved_def

lemma single_store_ok: "store_ok single_store"
  by (auto simp: store_ok_def single_store_def)

lemma single_load: "load single_store 7 = Some (p single_simulator)"
  by (simp add: store_defs example_defs)

lemma single_init:
  "stored_init single_store 7 0 (- 1) ''empty_shell'' = Inr (single_copied, 15, single_simulator)"
  by (simp add: store_defs example_defs simulator_init_def bindE_def)


lemma single_load_copy: "load single_copied 15 = Some (p single_simulator)"
  by (simp add: store_defs example_defs)

lemma single_step_stored:
  "stored_call (\<lambda>s. full_step 1 s 1 ''PEFRL'' None) (single_copied, 15, single_simulator) =
     Inr (single_moved, 15, single_stepped)"
proof -
  have s: "single_simulator \<lparr> p := p single_simulator \<rparr> = single_simulator" by simp
  have w: "write_back 15 (p single_stepped) single_copied = Some single_moved"
    by (simp add: store_defs example_defs fun_upd_twist)
  show ?thesis
    unfolding stored_call_def
    by (simp add: single_load_copy s full_step_single bindE_def w)
qed

theorem deep_copy_protects_original_witness:
  "store_ok single_store \<and>
   load single_store 7 = Some (p single_simulator) \<and>
   stored_init single_store 7 0 (- 1) ''empty_shell'' = Inr (single_copied, 15, single_simulator) \<and>
   stored_run 1 (single_copied, 15, single_simulator) (single_moved, 15, single_stepped) \<and>
   load single_moved 7 = Some (p single_simulator) \<and>
   load single_moved 15 = Some (p single_stepped) \<and>
   xBH2 (p single_stepped) \<noteq> xBH2 (p single_simulator)"
proof -
  have run: "stored_run 1 (single_copied, 15, single_simulator) (single_moved, 15, single_stepped)"
    by (rule stored_run.run_step [OF stored_run.run_start single_step_stored])
  have moved: "load single_moved 15 = Some (p single_stepped)"
    by (simp add: store_defs example_defs)
  have differs: "xBH2 (p single_stepped) \<noteq> xBH2 (p single_simulator)"
    by (simp add: example_defs vzero_def)
  from deep_copy_protects_original [OF single_store_ok single_load single_init run]
    single_store_ok single_load single_init run moved differs
  show ?thesis by simp
qed

end
